theory Spec2Isabelle
  imports Main
begin

section \<open>Values, exceptions and the outside world\<close>

text \<open>
  The script works on parsed JSON documents. A JSON object is a Python dict: an association
  list in insertion order (keys distinct in every dict that \<open>json.loads\<close> builds). JSON
  numbers are integers here; the payloads the script reads carry no fractions.

  A Python \<open>str\<close> is kept as the bytes of its UTF-8 encoding: a character below U+0080 is
  one byte, the character U+00A0 is the two bytes C2 A0, and so on. A \<open>str\<close> holding a lone
  surrogate has no such encoding and is not covered. Bodies and files are plain bytes.
\<close>

datatype json =
    JNull
  | JBool bool
  | JInt int
  | JStr string
  | JArr "json list"
  | JObj "(string \<times> json) list"

text \<open>
  The exceptions the script can raise; none of them is caught anywhere in the script.
  \<open>OSError\<close> stands for the class and its subclasses (\<open>FileExistsError\<close>,
  \<open>IsADirectoryError\<close> and the like).
\<close>

datatype error =
    KeyError
  | IndexError
  | TypeError
  | ValueError
  | AttributeError
  | HTTPError
  | UnknownBrowser
  | OSError

text \<open>\<open>x[key]\<close> for a string key.\<close>

definition getitem :: "json \<Rightarrow> string \<Rightarrow> error + json" where
  "getitem x k =
     (case x of
        JObj kvs \<Rightarrow> (case map_of kvs k of None \<Rightarrow> Inl KeyError | Some v \<Rightarrow> Inr v)
      | _ \<Rightarrow> Inl TypeError)"

text \<open>
  \<open>x[0]\<close>. The first character of a string is its first byte with the continuation bytes
  that follow it.
\<close>

definition is_continuation :: "char \<Rightarrow> bool" where
  "is_continuation c \<longleftrightarrow> (let n = (of_char c :: nat) in 128 \<le> n \<and> n \<le> 191)"

definition getitem0 :: "json \<Rightarrow> error + json" where
  "getitem0 x =
     (case x of
        JArr xs \<Rightarrow> (case xs of [] \<Rightarrow> Inl IndexError | y # _ \<Rightarrow> Inr y)
      | JStr s \<Rightarrow>
          (case s of
             [] \<Rightarrow> Inl IndexError
           | c # cs \<Rightarrow> Inr (JStr (c # takeWhile is_continuation cs)))
      | JObj _ \<Rightarrow> Inl KeyError
      | _ \<Rightarrow> Inl TypeError)"

text \<open>\<open>x.values()\<close>: only a dict has the method.\<close>

definition values_of :: "json \<Rightarrow> error + json list" where
  "values_of x = (case x of JObj kvs \<Rightarrow> Inr (map snd kvs) | _ \<Rightarrow> Inl AttributeError)"

text \<open>\<open>x - n\<close> for an integer \<open>n\<close>; Python's \<open>bool\<close> is a subtype of \<open>int\<close>.\<close>

definition minus_int :: "json \<Rightarrow> int \<Rightarrow> error + json" where
  "minus_int x n =
     (case x of
        JInt m \<Rightarrow> Inr (JInt (m - n))
      | JBool b \<Rightarrow> Inr (JInt ((if b then 1 else 0) - n))
      | _ \<Rightarrow> Inl TypeError)"

text \<open>
  The part of a string after the first occurrence of a pattern (\<open>None\<close> when the pattern
  does not occur), and the substring test built on it.
\<close>

fun after_first :: "string \<Rightarrow> string \<Rightarrow> string option" where
  "after_first pat [] = (if pat = [] then Some [] else None)"
| "after_first pat (c # cs) =
     (if take (length pat) (c # cs) = pat then Some (drop (length pat) (c # cs))
      else after_first pat cs)"

text \<open>\<open>k in x\<close> for a string \<open>k\<close>.\<close>

definition contains :: "json \<Rightarrow> string \<Rightarrow> error + bool" where
  "contains x k =
     (case x of
        JObj kvs \<Rightarrow> Inr (k \<in> set (map fst kvs))
      | JArr xs \<Rightarrow> Inr (JStr k \<in> set xs)
      | JStr s \<Rightarrow> Inr (after_first k s \<noteq> None)
      | _ \<Rightarrow> Inl TypeError)"

text \<open>
  A value used as a component of \<open>os.path.join\<close>, which raises \<open>TypeError\<close> for anything but
  a string.
\<close>

definition as_str :: "json \<Rightarrow> error + string" where
  "as_str x = (case x of JStr s \<Rightarrow> Inr s | _ \<Rightarrow> Inl TypeError)"

subsection \<open>Configuration\<close>

text \<open>The global \<open>CONFIG\<close> dict, without the progress bar, which is part of the state.\<close>

record config =
  VERBOSE :: nat
  OUTPUT_DIR :: string
  BROWSER :: string
  FORMAT :: string
  FORCE :: bool

definition MAX_THREADS :: int where
  "MAX_THREADS = 32"

definition SUPPORTED_FILE_FORMATS :: "string list" where
  "SUPPORTED_FILE_FORMATS =
     [''aac-hi'', ''aiff-lossless'', ''alac'', ''flac'', ''mp3-320'', ''mp3-v0'', ''vorbis'', ''wav'']"

definition SUPPORTED_BROWSERS :: "string list" where
  "SUPPORTED_BROWSERS = [''firefox'', ''chrome'', ''chromium'', ''brave'', ''opera'', ''edge'']"

definition USER_URL :: "string \<Rightarrow> string" where
  "USER_URL user = ''https://bandcamp.com/'' @ user"

definition COLLECTION_POST_URL :: string where
  "COLLECTION_POST_URL = ''https://bandcamp.com/api/fancollection/1/collection_items''"

subsection \<open>HTTP\<close>

text \<open>
  A cookie jar is named by the browser it was read from. What the embedded pipeline
  \<open>BeautifulSoup(..., SoupStrainer('div', id='pagedata')).find('div')\<close>,
  \<open>html.unescape(div.get('data-blob'))\<close>, \<open>json.loads\<close> makes of a page is a field of the
  response: no such element, or the element with the outcome of decoding its blob.
  Likewise \<open>json_text\<close> is \<open>json.loads(response.text)\<close>. Header names are looked up without
  regard to case, so \<open>headers\<close> is keyed by the lower-case name; their values are decoded
  as ISO-8859-1, so they hold characters below U+0100 only. The server answers a request
  the same way each time it is asked during a run; failures of the transport itself are
  not modelled.

  The operating system belongs to the outside world as well. What its calls do to the
  file system, of whatever kind \<open>'f\<close> that is, and when they fail, is not decided here: the
  world supplies \<open>os.path.exists\<close>, \<open>os.stat(...).st_size\<close>,
  \<open>os.makedirs(..., exist_ok=True)\<close>, \<open>open(..., 'wb')\<close> and the \<open>write\<close> of the file
  opened under a path. A call that changes the file system gives the exception it raised,
  if any, and the file system it left.
\<close>

datatype cookies = Jar string

datatype page = NoDiv | Div "error + json"

record response =
  status_code :: nat
  headers :: "string \<rightharpoonup> string"
  content :: string
  pagedata :: page
  json_text :: "error + json"

record 'f world =
  http_get :: "cookies \<Rightarrow> string \<Rightarrow> response"
  http_post :: "cookies \<Rightarrow> string \<Rightarrow> json \<Rightarrow> response"
  path_exists :: "'f \<Rightarrow> string \<Rightarrow> bool"
  stat_size :: "'f \<Rightarrow> string \<Rightarrow> error + nat"
  makedirs :: "'f \<Rightarrow> string \<Rightarrow> error option \<times> 'f"
  open_wb :: "'f \<Rightarrow> string \<Rightarrow> error option \<times> 'f"
  fh_write :: "'f \<Rightarrow> string \<Rightarrow> string \<Rightarrow> error option \<times> 'f"

datatype request = GET string | POST string json

text \<open>\<open>response.raise_for_status()\<close> raises for a 4xx or 5xx status.\<close>

definition raise_for_status :: "response \<Rightarrow> bool" where
  "raise_for_status r \<longleftrightarrow> 400 \<le> status_code r \<and> status_code r < 600"

subsection \<open>State\<close>

text \<open>
  Lines printed or written to the progress bar are kept as the template used and its
  arguments.
\<close>

datatype message =
    MsgArgs
  | MsgForceSet
  | MsgRetrieving string
  | MsgFound "nat" string
  | MsgNoLinks string
  | MsgStarting
  | MsgDone
  | MsgNoPagedataUser string
  | MsgNoPagedataAlbum json
  | MsgNoFormat json json string
  | MsgForceOverwrite string
  | MsgSkipping string
  | MsgWrongSize string int nat
  | MsgSaving string

text \<open>
  The state holds the file system, the progress bar and what was printed. \<open>sent\<close> records
  the requests issued, in order; it is not read by the script.
\<close>

record 'f state =
  fs :: 'f
  tqdm_n :: nat
  tqdm_out :: "message list"
  stdout :: "message list"
  sent :: "request list"

definition tqdm_write :: "message \<Rightarrow> 'f state \<Rightarrow> 'f state" where
  "tqdm_write m st = st\<lparr>tqdm_out := tqdm_out st @ [m]\<rparr>"

definition tqdm_update :: "'f state \<Rightarrow> 'f state" where
  "tqdm_update st = st\<lparr>tqdm_n := tqdm_n st + 1\<rparr>"

definition print :: "message \<Rightarrow> 'f state \<Rightarrow> 'f state" where
  "print m st = st\<lparr>stdout := stdout st @ [m]\<rparr>"

definition send :: "request \<Rightarrow> 'f state \<Rightarrow> 'f state" where
  "send r st = st\<lparr>sent := sent st @ [r]\<rparr>"

definition get_cookies :: "config \<Rightarrow> error + cookies" where
  "get_cookies cfg =
     (if BROWSER cfg = ''firefox'' then Inr (Jar ''firefox'')
      else if BROWSER cfg = ''chrome'' then Inr (Jar ''chrome'')
      else if BROWSER cfg = ''brave'' then Inr (Jar ''brave'')
      else if BROWSER cfg = ''edge'' then Inr (Jar ''edge'')
      else if BROWSER cfg = ''chromium'' then Inr (Jar ''chromium'')
      else if BROWSER cfg = ''opera'' then Inr (Jar ''opera'')
      else Inl UnknownBrowser)"

section \<open>Enumerating the collection\<close>

record user_info =
  collection_count :: json
  user_id :: json
  last_token :: json
  download_urls :: "json list"

definition generate_collection_post_payload :: "user_info \<Rightarrow> error + json" where
  "generate_collection_post_payload ui =
     (case minus_int (collection_count ui) (int (length (download_urls ui))) of
        Inl e \<Rightarrow> Inl e
      | Inr c \<Rightarrow>
          Inr (JObj [(''fan_id'', user_id ui), (''count'', c), (''older_than_token'', last_token ui)]))"

definition get_user_collection ::
  "config \<Rightarrow> 'f world \<Rightarrow> user_info \<Rightarrow> 'f state \<Rightarrow> (error + user_info) \<times> 'f state" where
  "get_user_collection cfg w ui st =
     (case generate_collection_post_payload ui of
        Inl e \<Rightarrow> (Inl e, st)
      | Inr payload \<Rightarrow>
          (case get_cookies cfg of
             Inl e \<Rightarrow> (Inl e, st)
           | Inr jar \<Rightarrow>
               (let st1 = send (POST COLLECTION_POST_URL payload) st;
                    r = http_post w jar COLLECTION_POST_URL payload
                in if raise_for_status r then (Inl HTTPError, st1)
                   else
                     (case json_text r of
                        Inl e \<Rightarrow> (Inl e, st1)
                      | Inr data \<Rightarrow>
                          (case getitem data ''redownload_urls'' of
                             Inl e \<Rightarrow> (Inl e, st1)
                           | Inr d \<Rightarrow>
                               (case values_of d of
                                  Inl e \<Rightarrow> (Inl e, st1)
                                | Inr vs \<Rightarrow>
                                    (Inr (ui\<lparr>download_urls := download_urls ui @ vs\<rparr>), st1)))))))"

text \<open>
  The fields of the profile payload, read in the order of the source; the first missing
  one raises.
\<close>

definition read_user_info :: "json \<Rightarrow> error + user_info" where
  "read_user_info data =
     (case getitem data ''collection_count'' of
        Inl e \<Rightarrow> Inl e
      | Inr cc \<Rightarrow>
          (case getitem data ''fan_data'' of
             Inl e \<Rightarrow> Inl e
           | Inr fd \<Rightarrow>
               (case getitem fd ''fan_id'' of
                  Inl e \<Rightarrow> Inl e
                | Inr fid \<Rightarrow>
                    (case getitem data ''collection_data'' of
                       Inl e \<Rightarrow> Inl e
                     | Inr cd \<Rightarrow>
                         (case getitem cd ''last_token'' of
                            Inl e \<Rightarrow> Inl e
                          | Inr tok \<Rightarrow>
                              (case getitem cd ''redownload_urls'' of
                                 Inl e \<Rightarrow> Inl e
                               | Inr ru \<Rightarrow>
                                   (case values_of ru of
                                      Inl e \<Rightarrow> Inl e
                                    | Inr vs \<Rightarrow>
                                        Inr \<lparr>collection_count = cc, user_id = fid,
                                             last_token = tok, download_urls = vs\<rparr>)))))))"

text \<open>The result is \<open>None\<close> where the source falls off a bare \<open>return\<close>.\<close>

definition get_download_links_for_user ::
  "config \<Rightarrow> 'f world \<Rightarrow> string \<Rightarrow> 'f state \<Rightarrow> (error + json list option) \<times> 'f state" where
  "get_download_links_for_user cfg w user st =
     (let st0 = print (MsgRetrieving user) st
      in case get_cookies cfg of
           Inl e \<Rightarrow> (Inl e, st0)
         | Inr jar \<Rightarrow>
             (let st1 = send (GET (USER_URL user)) st0
              in case pagedata (http_get w jar (USER_URL user)) of
                   NoDiv \<Rightarrow> (Inr None, print (MsgNoPagedataUser (USER_URL user)) st1)
                 | Div blob \<Rightarrow>
                     (case blob of
                        Inl e \<Rightarrow> (Inl e, st1)
                      | Inr data \<Rightarrow>
                          (case read_user_info data of
                             Inl e \<Rightarrow> (Inl e, st1)
                           | Inr ui \<Rightarrow>
                               (case get_user_collection cfg w ui st1 of
                                  (Inl e, st2) \<Rightarrow> (Inl e, st2)
                                | (Inr ui', st2) \<Rightarrow> (Inr (Some (download_urls ui')), st2))))))"

section \<open>Strings, paths and numbers\<close>

text \<open>
  \<open>FILENAME_REGEX.search(s)\<close> for the pattern \<open>filename\*=UTF-8''(.*)\<close>: the leftmost
  occurrence of the literal part, and in group 1 everything after it up to the end of the
  line (\<open>.\<close> does not match a newline). The result is group 1 of the match.
\<close>

definition FILENAME_REGEX_search :: "string \<Rightarrow> string option" where
  "FILENAME_REGEX_search s =
     (case after_first (''filename*=UTF-8'' @ [CHR 0x27, CHR 0x27]) s of
        None \<Rightarrow> None
      | Some rest \<Rightarrow> Some (takeWhile (\<lambda>c. c \<noteq> CHR 0x0A) rest))"

definition hexval :: "char \<Rightarrow> nat option" where
  "hexval c =
     (let n = (of_char c :: nat)
      in if 48 \<le> n \<and> n \<le> 57 then Some (n - 48)
         else if 65 \<le> n \<and> n \<le> 70 then Some (n - 55)
         else if 97 \<le> n \<and> n \<le> 102 then Some (n - 87)
         else None)"

text \<open>
  The bytes that \<open>urllib.parse.unquote_to_bytes\<close> makes of a run of ASCII characters: a
  percent sign followed by two hexadecimal digits becomes the byte they name; any other
  percent sign stays.
\<close>

fun unquote_to_bytes :: "string \<Rightarrow> string" where
  "unquote_to_bytes (c # h1 # h2 # cs) =
     (case (if c = CHR ''%'' then hexval h1 else None, hexval h2) of
        (Some a, Some b) \<Rightarrow> char_of (a * 16 + b) # unquote_to_bytes cs
      | _ \<Rightarrow> c # unquote_to_bytes (h1 # h2 # cs))"
| "unquote_to_bytes cs = cs"

text \<open>
  \<open>bytes.decode('utf-8', 'replace')\<close>, read back as UTF-8: well-formed sequences stay, and
  each ill-formed one is replaced by U+FFFD (the bytes EF BF BD). As the decoder of
  CPython does, an ill-formed sequence ends before the first byte that cannot continue
  it, and that byte is looked at again. \<open>seq_len\<close> is the length a lead byte announces
  (0 for a byte that cannot start a sequence) and \<open>second_range\<close> the values allowed for
  the byte after it.
\<close>

definition U_FFFD :: string where
  "U_FFFD = [CHR 0xEF, CHR 0xBF, CHR 0xBD]"

definition seq_len :: "char \<Rightarrow> nat" where
  "seq_len c =
     (let n = (of_char c :: nat)
      in if n < 128 then 1
         else if 194 \<le> n \<and> n \<le> 223 then 2
         else if 224 \<le> n \<and> n \<le> 239 then 3
         else if 240 \<le> n \<and> n \<le> 244 then 4
         else 0)"

definition second_range :: "char \<Rightarrow> nat \<times> nat" where
  "second_range c =
     (let n = (of_char c :: nat)
      in if n = 224 then (160, 191)
         else if n = 237 then (128, 159)
         else if n = 240 then (144, 191)
         else if n = 244 then (128, 143)
         else (128, 191))"

definition in_range :: "nat \<times> nat \<Rightarrow> char \<Rightarrow> bool" where
  "in_range rng c \<longleftrightarrow> fst rng \<le> (of_char c :: nat) \<and> (of_char c :: nat) \<le> snd rng"

text \<open>
  \<open>pending\<close> holds, last byte first, the sequence begun and not yet complete, \<open>need\<close> the
  number of bytes it still lacks and \<open>rng\<close> the values allowed for the next of them.
\<close>

fun utf8_replace_from :: "string \<Rightarrow> nat \<Rightarrow> nat \<times> nat \<Rightarrow> string \<Rightarrow> string" where
  "utf8_replace_from pending need rng [] = (if need = 0 then [] else U_FFFD)"
| "utf8_replace_from pending need rng (c # cs) =
     (if need > 0 \<and> in_range rng c then
        (if need = 1 then rev (c # pending) @ utf8_replace_from [] 0 (128, 191) cs
         else utf8_replace_from (c # pending) (need - 1) (128, 191) cs)
      else
        (if need > 0 then U_FFFD else []) @
        (if seq_len c = 1 then c # utf8_replace_from [] 0 (128, 191) cs
         else if seq_len c = 0 then U_FFFD @ utf8_replace_from [] 0 (128, 191) cs
         else utf8_replace_from [c] (seq_len c - 1) (second_range c) cs))"

definition utf8_replace :: "string \<Rightarrow> string" where
  "utf8_replace bs = utf8_replace_from [] 0 (128, 191) bs"

text \<open>
  The maximal runs of ASCII characters and of other characters of a string, in order,
  each with the flag that says whether it is ASCII.
\<close>

definition is_ascii :: "char \<Rightarrow> bool" where
  "is_ascii c \<longleftrightarrow> (of_char c :: nat) < 128"

fun ascii_runs :: "string \<Rightarrow> (bool \<times> string) list" where
  "ascii_runs [] = []"
| "ascii_runs (c # cs) =
     (case ascii_runs cs of
        [] \<Rightarrow> [(is_ascii c, [c])]
      | (a, run) # runs \<Rightarrow>
          if a = is_ascii c then (a, c # run) # runs else (is_ascii c, [c]) # (a, run) # runs)"

text \<open>
  \<open>urllib.parse.unquote\<close>: a string without a percent sign is returned as it is; otherwise
  each run of ASCII characters is turned into bytes and decoded as UTF-8 with replacement,
  and the characters between the runs stay.
\<close>

definition unquote :: "string \<Rightarrow> string" where
  "unquote s =
     (if CHR ''%'' \<notin> set s then s
      else concat (map (\<lambda>(a, run). if a then utf8_replace (unquote_to_bytes run) else run)
                     (ascii_runs s)))"

text \<open>\<open>s.split('/')[-1]\<close>: what follows the last slash, the whole string when there is none.\<close>

definition last_segment :: "string \<Rightarrow> string" where
  "last_segment s = rev (takeWhile (\<lambda>c. c \<noteq> CHR ''/'') (rev s))"

text \<open>\<open>os.path.join\<close> of \<open>posixpath\<close>.\<close>

definition join2 :: "string \<Rightarrow> string \<Rightarrow> string" where
  "join2 a b =
     (if b \<noteq> [] \<and> hd b = CHR ''/'' then b
      else if a = [] \<or> last a = CHR ''/'' then a @ b
      else a @ ''/'' @ b)"

definition os_path_join :: "string \<Rightarrow> string list \<Rightarrow> string" where
  "os_path_join a ps = foldl join2 a ps"

text \<open>
  \<open>os.path.dirname\<close> of \<open>posixpath\<close>: the part up to the last slash, without the slashes
  that end it unless it consists of slashes only.
\<close>

definition os_path_dirname :: "string \<Rightarrow> string" where
  "os_path_dirname p =
     (let head = rev (dropWhile (\<lambda>c. c \<noteq> CHR ''/'') (rev p))
      in if head \<noteq> [] \<and> (\<exists>c\<in>set head. c \<noteq> CHR ''/'')
         then rev (dropWhile (\<lambda>c. c = CHR ''/'') (rev head))
         else head)"

text \<open>
  \<open>int(s)\<close> on the value of a header: white space around, an optional sign, decimal digits
  with single underscores between them, and no more than 4300 digits (the limit that
  CPython sets by default). White space is the ASCII characters 9 to 13 and 32 and, among
  the characters a header value can hold, U+0085 and U+00A0; the ASCII separators 28 to
  31 are not. Beyond U+00FF \<open>int\<close> also takes other spaces and digits, which are left out.
\<close>

definition is_space :: "char \<Rightarrow> bool" where
  "is_space c \<longleftrightarrow> (let n = (of_char c :: nat) in (9 \<le> n \<and> n \<le> 13) \<or> n = 32)"

definition is_digit :: "char \<Rightarrow> bool" where
  "is_digit c \<longleftrightarrow> (let n = (of_char c :: nat) in 48 \<le> n \<and> n \<le> 57)"

definition digit :: "char \<Rightarrow> nat" where
  "digit c = (of_char c :: nat) - 48"

fun drop_space :: "string \<Rightarrow> string" where
  "drop_space [] = []"
| "drop_space [c] = (if is_space c then [] else [c])"
| "drop_space (c # d # cs) =
     (if is_space c then drop_space (d # cs)
      else if c = CHR 0xC2 \<and> (d = CHR 0x85 \<or> d = CHR 0xA0) then drop_space cs
      else c # d # cs)"

text \<open>
  The digits after the first one: the value so far, the number of digits so far, and what
  is left of the string when the digits end. An underscore must stand before a digit.
\<close>

fun scan_digits :: "nat \<Rightarrow> nat \<Rightarrow> string \<Rightarrow> (nat \<times> nat \<times> string) option" where
  "scan_digits v k [] = Some (v, k, [])"
| "scan_digits v k [c] =
     (if is_digit c then Some (v * 10 + digit c, k + 1, [])
      else if c = CHR ''_'' then None
      else Some (v, k, [c]))"
| "scan_digits v k (c # d # ds) =
     (if is_digit c then scan_digits (v * 10 + digit c) (k + 1) (d # ds)
      else if c = CHR ''_'' then
        (if is_digit d then scan_digits (v * 10 + digit d) (k + 1) ds else None)
      else Some (v, k, c # d # ds))"

definition parse_nat :: "string \<Rightarrow> nat option" where
  "parse_nat s =
     (case s of
        [] \<Rightarrow> None
      | c # cs \<Rightarrow>
          if is_digit c then
            (case scan_digits (digit c) 1 cs of
               None \<Rightarrow> None
             | Some (v, k, rest) \<Rightarrow> if drop_space rest = [] \<and> k \<le> 4300 then Some v else None)
          else None)"

definition py_int :: "string \<Rightarrow> error + int" where
  "py_int s =
     (case drop_space s of
        [] \<Rightarrow> Inl ValueError
      | c # cs \<Rightarrow>
          if c = CHR ''-'' then
            (case parse_nat cs of None \<Rightarrow> Inl ValueError | Some n \<Rightarrow> Inr (- int n))
          else if c = CHR ''+'' then
            (case parse_nat cs of None \<Rightarrow> Inl ValueError | Some n \<Rightarrow> Inr (int n))
          else
            (case parse_nat (c # cs) of None \<Rightarrow> Inl ValueError | Some n \<Rightarrow> Inr (int n)))"

text \<open>
  \<open>response.iter_content(chunk_size=n)\<close> hands the body out in pieces of \<open>n\<close> bytes, the last
  one possibly shorter. \<open>room\<close> is what the piece being filled can still take and \<open>piece\<close>
  that piece, last byte first.
\<close>

fun pieces :: "int \<Rightarrow> int \<Rightarrow> string \<Rightarrow> string \<Rightarrow> string list" where
  "pieces n room piece [] = (if piece = [] then [] else [rev piece])"
| "pieces n room piece (c # cs) =
     (if room \<le> 0 then rev piece # pieces n (n - 1) [c] cs
      else pieces n (room - 1) (c # piece) cs)"

definition iter_content :: "int \<Rightarrow> string \<Rightarrow> string list" where
  "iter_content n body = (if n \<le> 0 then [] else pieces n n [] body)"

section \<open>Fetching a file\<close>

text \<open>
  Which \<open>return\<close> a call left through: the source returns \<open>None\<close> everywhere, the tag is
  kept to tell the paths apart.
\<close>

datatype outcome = NoPagedata | NoFormat | Skipped | Written

text \<open>
  A URL handed to \<open>requests.get\<close> that is not a string is rejected as invalid
  (\<open>MissingSchema\<close>, a \<open>ValueError\<close>).
\<close>

definition as_url :: "json \<Rightarrow> error + string" where
  "as_url x = (case x of JStr s \<Rightarrow> Inr s | _ \<Rightarrow> Inl ValueError)"

text \<open>Lines 194 and 195: the name under which the file is saved.\<close>

definition filename_of :: "response \<Rightarrow> string \<Rightarrow> error + string" where
  "filename_of r url =
     (case headers r ''content-disposition'' of
        None \<Rightarrow> Inl KeyError
      | Some cd \<Rightarrow>
          (case FILENAME_REGEX_search cd of
             Some g \<Rightarrow> Inr (unquote g)
           | None \<Rightarrow> Inr (last_segment url)))"

text \<open>The loop of lines 214 and 215: the first \<open>write\<close> that raises ends it.\<close>

fun write_chunks :: "'f world \<Rightarrow> string \<Rightarrow> string list \<Rightarrow> 'f \<Rightarrow> error option \<times> 'f" where
  "write_chunks w file_path [] f = (None, f)"
| "write_chunks w file_path (chunk # chunks) f =
     (case fh_write w f file_path chunk of
        (Some e, f') \<Rightarrow> (Some e, f')
      | (None, f') \<Rightarrow> write_chunks w file_path chunks f')"

text \<open>
  Lines 211 to 216: the directories are made, the file is opened and the body written to
  it piece by piece, and the progress bar advances. An exception of any of these calls
  leaves the function with the file system as it was left.
\<close>

definition save ::
  "config \<Rightarrow> 'f world \<Rightarrow> response \<Rightarrow> string \<Rightarrow> 'f state \<Rightarrow> (error + outcome) \<times> 'f state" where
  "save cfg w r file_path st =
     (let st1 = (if VERBOSE cfg \<ge> 2 then tqdm_write (MsgSaving file_path) st else st)
      in case makedirs w (fs st1) (os_path_dirname file_path) of
           (Some e, f1) \<Rightarrow> (Inl e, st1\<lparr>fs := f1\<rparr>)
         | (None, f1) \<Rightarrow>
             (case open_wb w f1 file_path of
                (Some e, f2) \<Rightarrow> (Inl e, st1\<lparr>fs := f2\<rparr>)
              | (None, f2) \<Rightarrow>
                  (case write_chunks w file_path (iter_content 8192 (content r)) f2 of
                     (Some e, f3) \<Rightarrow> (Inl e, st1\<lparr>fs := f3\<rparr>)
                   | (None, f3) \<Rightarrow> (Inr Written, tqdm_update (st1\<lparr>fs := f3\<rparr>)))))"

text \<open>Lines 198 to 216: what happens once the path is known.\<close>

definition write_or_skip ::
  "config \<Rightarrow> 'f world \<Rightarrow> response \<Rightarrow> string \<Rightarrow> 'f state \<Rightarrow> (error + outcome) \<times> 'f state" where
  "write_or_skip cfg w r file_path st =
     (if path_exists w (fs st) file_path then
        if FORCE cfg then
          save cfg w r file_path
            (if VERBOSE cfg > 0 then tqdm_write (MsgForceOverwrite file_path) st else st)
        else
          (case headers r ''content-length'' of
             None \<Rightarrow> (Inl KeyError, st)
           | Some cl \<Rightarrow>
               (case py_int cl of
                  Inl e \<Rightarrow> (Inl e, st)
                | Inr expected_size \<Rightarrow>
                    (case stat_size w (fs st) file_path of
                       Inl e \<Rightarrow> (Inl e, st)
                     | Inr actual_size \<Rightarrow>
                         if expected_size = int actual_size then
                           (Inr Skipped,
                            tqdm_update
                              (if VERBOSE cfg \<ge> 3 then tqdm_write (MsgSkipping file_path) st
                               else st))
                         else
                           save cfg w r file_path
                             (if VERBOSE cfg \<ge> 2
                              then tqdm_write (MsgWrongSize file_path expected_size actual_size) st
                              else st))))
      else save cfg w r file_path st)"

definition download_file ::
  "config \<Rightarrow> 'f world \<Rightarrow> json \<Rightarrow> json \<Rightarrow> 'f state \<Rightarrow> (error + outcome) \<times> 'f state" where
  "download_file cfg w url to st =
     (case get_cookies cfg of
        Inl e \<Rightarrow> (Inl e, st)
      | Inr jar \<Rightarrow>
          (case as_url url of
             Inl e \<Rightarrow> (Inl e, st)
           | Inr u \<Rightarrow>
               (let st1 = send (GET u) st;
                    r = http_get w jar u
                in if raise_for_status r then (Inl HTTPError, st1)
                   else
                     (case filename_of r u of
                        Inl e \<Rightarrow> (Inl e, st1)
                      | Inr filename \<Rightarrow>
                          (case as_str to of
                             Inl e \<Rightarrow> (Inl e, st1)
                           | Inr dir \<Rightarrow>
                               write_or_skip cfg w r
                                 (os_path_join (OUTPUT_DIR cfg) [dir, filename]) st1)))))"

section \<open>Resolving an album\<close>

text \<open>
  Lines 175 to 183 on the decoded payload: the artist and the download URL, or \<open>None\<close>
  with the album title when the format is not on offer. Each line reads
  \<open>data['download_items'][0]\<close> again; the first read that fails raises.
\<close>

definition first_item :: "json \<Rightarrow> error + json" where
  "first_item data =
     (case getitem data ''download_items'' of Inl e \<Rightarrow> Inl e | Inr items \<Rightarrow> getitem0 items)"

definition resolve :: "config \<Rightarrow> json \<Rightarrow> error + (json \<times> json \<times> json option)" where
  "resolve cfg data =
     (case first_item data of
        Inl e \<Rightarrow> Inl e
      | Inr item \<Rightarrow>
          (case getitem item ''artist'' of
             Inl e \<Rightarrow> Inl e
           | Inr artist \<Rightarrow>
               (case getitem item ''title'' of
                  Inl e \<Rightarrow> Inl e
                | Inr album \<Rightarrow>
                    (case getitem item ''downloads'' of
                       Inl e \<Rightarrow> Inl e
                     | Inr downloads \<Rightarrow>
                         (case contains downloads (FORMAT cfg) of
                            Inl e \<Rightarrow> Inl e
                          | Inr False \<Rightarrow> Inr (artist, album, None)
                          | Inr True \<Rightarrow>
                              (case getitem downloads (FORMAT cfg) of
                                 Inl e \<Rightarrow> Inl e
                               | Inr d \<Rightarrow>
                                   (case getitem d ''url'' of
                                      Inl e \<Rightarrow> Inl e
                                    | Inr download_url \<Rightarrow>
                                        Inr (artist, album, Some download_url))))))))"

definition download_album ::
  "config \<Rightarrow> 'f world \<Rightarrow> json \<Rightarrow> 'f state \<Rightarrow> (error + outcome) \<times> 'f state" where
  "download_album cfg w album_url st =
     (case get_cookies cfg of
        Inl e \<Rightarrow> (Inl e, st)
      | Inr jar \<Rightarrow>
          (case as_url album_url of
             Inl e \<Rightarrow> (Inl e, st)
           | Inr u \<Rightarrow>
               (let st1 = send (GET u) st
                in case pagedata (http_get w jar u) of
                     NoDiv \<Rightarrow>
                       (Inr NoPagedata, tqdm_update (tqdm_write (MsgNoPagedataAlbum album_url) st1))
                   | Div blob \<Rightarrow>
                       (case blob of
                          Inl e \<Rightarrow> (Inl e, st1)
                        | Inr data \<Rightarrow>
                            (case resolve cfg data of
                               Inl e \<Rightarrow> (Inl e, st1)
                             | Inr (artist, album, None) \<Rightarrow>
                                 (Inr NoFormat,
                                  tqdm_update
                                    (tqdm_write (MsgNoFormat album album_url (FORMAT cfg)) st1))
                             | Inr (artist, album, Some download_url) \<Rightarrow>
                                 download_file cfg w download_url artist st1)))))"

section \<open>The run\<close>

text \<open>The loop of the sequential path: an exception leaves the loop and the run.\<close>

fun for_loop ::
  "config \<Rightarrow> 'f world \<Rightarrow> json list \<Rightarrow> 'f state \<Rightarrow> (error + outcome list) \<times> 'f state" where
  "for_loop cfg w [] st = (Inr [], st)"
| "for_loop cfg w (link # links) st =
     (case download_album cfg w link st of
        (Inl e, st') \<Rightarrow> (Inl e, st')
      | (Inr out, st') \<Rightarrow>
          (case for_loop cfg w links st' of
             (Inl e, st'') \<Rightarrow> (Inl e, st'')
           | (Inr outs, st'') \<Rightarrow> (Inr (out # outs), st'')))"

text \<open>
  \<open>executor.map(download_album, links)\<close> inside \<open>with ThreadPoolExecutor(...)\<close>: every
  link is submitted, an exception stays in the future of its own call, the results are
  never read, and leaving the block waits for all calls. The calls are taken here in the
  order of submission, one after the other; other interleavings of the workers are not
  modelled.
\<close>

fun executor_map ::
  "config \<Rightarrow> 'f world \<Rightarrow> json list \<Rightarrow> 'f state \<Rightarrow> (error + outcome) list \<times> 'f state" where
  "executor_map cfg w [] st = ([], st)"
| "executor_map cfg w (link # links) st =
     (case download_album cfg w link st of
        (r, st') \<Rightarrow>
          (case executor_map cfg w links st' of
             (rs, st'') \<Rightarrow> (r # rs, st'')))"

record args =
  username :: string
  browser :: string
  directory :: string
  format :: string
  parallel_downloads :: int
  force :: bool
  verbose :: nat

text \<open>Lines 90 to 94: the options go into \<open>CONFIG\<close>.\<close>

definition config_of :: "args \<Rightarrow> config" where
  "config_of a =
     \<lparr>VERBOSE = verbose a, OUTPUT_DIR = directory a, BROWSER = browser a, FORMAT = format a,
      FORCE = force a\<rparr>"

text \<open>
  The exit status of the process: 2 from \<open>parser.error\<close> (also for a value outside
  \<open>choices\<close>) and from \<open>sys.exit(2)\<close>, 1 for an exception nobody catches, 0 when \<open>main\<close>
  returns (\<open>sys.exit(None)\<close>). With \<open>--verbose\<close>, line 99 takes \<open>len(links)\<close>, which
  raises \<open>TypeError\<close> when \<open>links\<close> is \<open>None\<close>.
\<close>

definition main :: "args \<Rightarrow> 'f world \<Rightarrow> 'f state \<Rightarrow> int \<times> 'f state" where
  "main a w st =
     (if browser a \<notin> set SUPPORTED_BROWSERS \<or> format a \<notin> set SUPPORTED_FILE_FORMATS then (2, st)
      else if parallel_downloads a < 1 \<or> parallel_downloads a > MAX_THREADS then (2, st)
      else
        (let cfg = config_of a;
             st1 = (if VERBOSE cfg > 0 then print MsgArgs st else st);
             st2 = (if FORCE cfg then print MsgForceSet st1 else st1)
         in case get_download_links_for_user cfg w (username a) st2 of
              (Inl e, st3) \<Rightarrow> (1, st3)
            | (Inr None, st3) \<Rightarrow>
                if VERBOSE cfg > 0 then (1, st3)
                else (2, print (MsgNoLinks (username a)) st3)
            | (Inr (Some links), st3) \<Rightarrow>
                (let st4 = (if VERBOSE cfg > 0
                            then print (MsgFound (length links) (username a)) st3 else st3)
                 in if links = [] then (2, print (MsgNoLinks (username a)) st4)
                    else
                      (let st5 = (print MsgStarting st4)\<lparr>tqdm_n := 0\<rparr>
                       in if parallel_downloads a > 1 then
                            (case executor_map cfg w links st5 of
                               (rs, st6) \<Rightarrow> (0, print MsgDone st6))
                          else
                            (case for_loop cfg w links st5 of
                               (Inl e, st6) \<Rightarrow> (1, st6)
                             | (Inr outs, st6) \<Rightarrow> (0, print MsgDone st6))))))"

section \<open>Concrete inputs\<close>

text \<open>
  The file store of the examples: regular files under the paths they were opened with,
  every directory there when it is asked for. It answers as a file system does for the
  paths of the examples, which are absolute and plain and lie in directories that can be
  made.
\<close>

type_synonym file_store = "string \<rightharpoonup> string"

definition store_exists :: "file_store \<Rightarrow> string \<Rightarrow> bool" where
  "store_exists f p \<longleftrightarrow> f p \<noteq> None"

definition store_size :: "file_store \<Rightarrow> string \<Rightarrow> error + nat" where
  "store_size f p = (case f p of None \<Rightarrow> Inl OSError | Some body \<Rightarrow> Inr (length body))"

definition store_makedirs :: "file_store \<Rightarrow> string \<Rightarrow> error option \<times> file_store" where
  "store_makedirs f p = (None, f)"

definition store_open :: "file_store \<Rightarrow> string \<Rightarrow> error option \<times> file_store" where
  "store_open f p = (None, f(p \<mapsto> []))"

definition store_write :: "file_store \<Rightarrow> string \<Rightarrow> string \<Rightarrow> error option \<times> file_store" where
  "store_write f p chunk =
     (None, f(p \<mapsto> (case f p of None \<Rightarrow> chunk | Some body \<Rightarrow> body @ chunk)))"

definition on_store ::
  "(cookies \<Rightarrow> string \<Rightarrow> response) \<Rightarrow> (cookies \<Rightarrow> string \<Rightarrow> json \<Rightarrow> response) \<Rightarrow>
   file_store world" where
  "on_store get post =
     \<lparr>http_get = get, http_post = post, path_exists = store_exists, stat_size = store_size,
      makedirs = store_makedirs, open_wb = store_open, fh_write = store_write\<rparr>"

definition st_empty :: "file_store state" where
  "st_empty = \<lparr>fs = Map.empty, tqdm_n = 0, tqdm_out = [], stdout = [], sent = []\<rparr>"

definition cfg_flac :: config where
  "cfg_flac =
     \<lparr>VERBOSE = 0, OUTPUT_DIR = ''/music'', BROWSER = ''firefox'', FORMAT = ''flac'',
      FORCE = False\<rparr>"

definition not_found :: response where
  "not_found =
     \<lparr>status_code = 404, headers = Map.empty, content = [], pagedata = NoDiv,
      json_text = Inl ValueError\<rparr>"

text \<open>
  A profile page declaring \<open>n\<close> purchases with a first page of URLs embedded, and an answer
  of the listing endpoint carrying a further page.
\<close>

definition profile_page :: "int \<Rightarrow> (string \<times> json) list \<Rightarrow> response" where
  "profile_page n urls =
     \<lparr>status_code = 200, headers = Map.empty, content = [],
      pagedata =
        Div (Inr (JObj [(''collection_count'', JInt n),
                        (''fan_data'', JObj [(''fan_id'', JInt 7)]),
                        (''collection_data'',
                         JObj [(''last_token'', JStr ''t0''), (''redownload_urls'', JObj urls)])])),
      json_text = Inl ValueError\<rparr>"

definition listing :: "(string \<times> json) list \<Rightarrow> response" where
  "listing urls =
     \<lparr>status_code = 200, headers = Map.empty, content = [], pagedata = NoDiv,
      json_text = Inr (JObj [(''redownload_urls'', JObj urls)])\<rparr>"

definition enum_world :: "response \<Rightarrow> response \<Rightarrow> file_store world" where
  "enum_world profile answer = on_store (\<lambda>jar url. profile) (\<lambda>jar url body. answer)"

definition ui_example :: user_info where
  "ui_example =
     \<lparr>collection_count = JInt 5, user_id = JInt 7, last_token = JStr ''t0'',
      download_urls = [JStr ''https://bandcamp.com/download?id=1'',
                       JStr ''https://bandcamp.com/download?id=2'']\<rparr>"

text \<open>
  A file response: status 200 with the two headers the script reads and a body.
\<close>

definition file_response :: "string \<Rightarrow> string \<Rightarrow> string \<Rightarrow> response" where
  "file_response disposition len body =
     \<lparr>status_code = 200,
      headers = [''content-disposition'' \<mapsto> disposition, ''content-length'' \<mapsto> len],
      content = body, pagedata = NoDiv, json_text = Inl ValueError\<rparr>"

text \<open>The same response as sent by a server that leaves \<open>content-disposition\<close> out.\<close>

definition bare_response :: "string \<Rightarrow> string \<Rightarrow> response" where
  "bare_response len body =
     \<lparr>status_code = 200, headers = [''content-length'' \<mapsto> len],
      content = body, pagedata = NoDiv, json_text = Inl ValueError\<rparr>"

definition file_world :: "response \<Rightarrow> file_store world" where
  "file_world r = on_store (\<lambda>jar url. r) (\<lambda>jar url body. not_found)"

definition track_disposition :: string where
  "track_disposition =
     ''attachment; filename*=UTF-8'' @ [CHR 0x27, CHR 0x27] @ ''Artist%20-%20Track.flac''"

definition cfg_force :: config where
  "cfg_force = cfg_flac\<lparr>FORCE := True\<rparr>"

definition st_with_file :: "string \<Rightarrow> string \<Rightarrow> file_store state" where
  "st_with_file file_path body = st_empty\<lparr>fs := [file_path \<mapsto> body]\<rparr>"

definition track_url :: string where
  "track_url = ''https://bcbits.com/download/track.zip''"

text \<open>
  An album's download page with one download item, a download page whose list of items is
  empty, and a site serving the listed pages (anything else is not found) and one answer
  of the listing endpoint.
\<close>

definition album_page :: "string \<Rightarrow> string \<Rightarrow> (string \<times> json) list \<Rightarrow> response" where
  "album_page artist title formats =
     \<lparr>status_code = 200, headers = Map.empty, content = [],
      pagedata =
        Div (Inr (JObj [(''download_items'',
                         JArr [JObj [(''artist'', JStr artist), (''title'', JStr title),
                                     (''downloads'', JObj formats)]])])),
      json_text = Inl ValueError\<rparr>"

definition empty_album_page :: response where
  "empty_album_page =
     \<lparr>status_code = 200, headers = Map.empty, content = [],
      pagedata = Div (Inr (JObj [(''download_items'', JArr [])])),
      json_text = Inl ValueError\<rparr>"

definition site :: "(string \<times> response) list \<Rightarrow> response \<Rightarrow> file_store world" where
  "site pages answer =
     on_store (\<lambda>jar url. case map_of pages url of Some r \<Rightarrow> r | None \<Rightarrow> not_found)
       (\<lambda>jar url body. answer)"

definition format_entry :: "string \<Rightarrow> string \<Rightarrow> string \<times> json" where
  "format_entry tag url = (tag, JObj [(''url'', JStr url)])"

definition album_url :: string where
  "album_url = ''https://bandcamp.com/download?id=1''"

definition mp3_only_item :: json where
  "mp3_only_item =
     JObj [(''artist'', JStr ''Artist''), (''title'', JStr ''Album''),
           (''downloads'', JObj [format_entry ''mp3-320'' track_url])]"

definition mp3_only_site :: "file_store world" where
  "mp3_only_site =
     site [(album_url, album_page ''Artist'' ''Album'' [format_entry ''mp3-320'' track_url])]
       not_found"

definition empty_items_site :: "file_store world" where
  "empty_items_site = site [(album_url, empty_album_page)] not_found"

text \<open>
  A run for the user \<open>fan\<close>, sequential or with two workers, and three sites: one whose
  profile page has no payload element, one whose collection is empty, and one with two
  albums where the file of the first is not found and the file of the second is served.
\<close>

definition args_seq :: args where
  "args_seq =
     \<lparr>username = ''fan'', browser = ''firefox'', directory = ''/music'', format = ''flac'',
      parallel_downloads = 1, force = False, verbose = 0\<rparr>"

definition args_pool :: args where
  "args_pool = args_seq\<lparr>parallel_downloads := 2\<rparr>"

definition no_payload_site :: "file_store world" where
  "no_payload_site = site [] not_found"

definition empty_collection_site :: "file_store world" where
  "empty_collection_site = site [(USER_URL ''fan'', profile_page 0 [])] (listing [])"

definition album_url_b :: string where
  "album_url_b = ''https://bandcamp.com/download?id=2''"

definition track_url_b :: string where
  "track_url_b = ''https://bcbits.com/download/other.zip''"


text \<open>The same two albums with both files served.\<close>

definition good_site :: "file_store world" where
  "good_site =
     site [(USER_URL ''fan'',
            profile_page 2 [(''p1'', JStr album_url), (''p2'', JStr album_url_b)]),
           (album_url, album_page ''Artist'' ''Album'' [format_entry ''flac'' track_url]),
           (album_url_b, album_page ''Artist'' ''Other'' [format_entry ''flac'' track_url_b]),
           (track_url, file_response track_disposition ''3'' ''xyz''),
           (track_url_b, file_response ''attachment'' ''5'' ''abcde'')]
       (listing [])"



section \<open>Properties of the enumeration\<close>

lemma get_user_collection_Inr:
  assumes "get_user_collection cfg w ui st = (Inr ui', st')"
  shows "\<exists>jar payload d rd more.
           generate_collection_post_payload ui = Inr payload \<and>
           get_cookies cfg = Inr jar \<and>
           \<not> raise_for_status (http_post w jar COLLECTION_POST_URL payload) \<and>
           json_text (http_post w jar COLLECTION_POST_URL payload) = Inr d \<and>
           getitem d ''redownload_urls'' = Inr rd \<and>
           values_of rd = Inr more \<and>
           ui' = ui\<lparr>download_urls := download_urls ui @ more\<rparr> \<and>
           st' = send (POST COLLECTION_POST_URL payload) st"
  using assms
  by (auto simp: get_user_collection_def Let_def split: sum.splits if_splits)

text \<open>
  Every way \<open>get_download_links_for_user\<close> returns a list: the profile payload was read,
  one POST was sent after the GET, and its answer was appended to the first page.
\<close>

lemma get_download_links_for_user_Some:
  assumes "get_download_links_for_user cfg w user st = (Inr (Some urls), st')"
  shows "\<exists>jar data ui payload d rd more.
           get_cookies cfg = Inr jar \<and>
           pagedata (http_get w jar (USER_URL user)) = Div (Inr data) \<and>
           read_user_info data = Inr ui \<and>
           generate_collection_post_payload ui = Inr payload \<and>
           \<not> raise_for_status (http_post w jar COLLECTION_POST_URL payload) \<and>
           json_text (http_post w jar COLLECTION_POST_URL payload) = Inr d \<and>
           getitem d ''redownload_urls'' = Inr rd \<and>
           values_of rd = Inr more \<and>
           urls = download_urls ui @ more \<and>
           sent st' = sent st @ [GET (USER_URL user), POST COLLECTION_POST_URL payload]"
proof -
  from assms obtain jar where jar: "get_cookies cfg = Inr jar"
    by (auto simp: get_download_links_for_user_def Let_def split: sum.splits)
  let ?st1 = "send (GET (USER_URL user)) (print (MsgRetrieving user) st)"
  from assms jar obtain data where
    data: "pagedata (http_get w jar (USER_URL user)) = Div (Inr data)"
    by (auto simp: get_download_links_for_user_def Let_def split: sum.splits page.splits)
  from assms jar data obtain ui where ui: "read_user_info data = Inr ui"
    by (auto simp: get_download_links_for_user_def Let_def split: sum.splits)
  from assms jar data ui obtain ui' where
    coll: "get_user_collection cfg w ui ?st1 = (Inr ui', st')" and urls: "urls = download_urls ui'"
    by (auto simp: get_download_links_for_user_def Let_def split: sum.splits prod.splits)
  from get_user_collection_Inr [OF coll] jar obtain payload d rd more where
    "generate_collection_post_payload ui = Inr payload"
    "\<not> raise_for_status (http_post w jar COLLECTION_POST_URL payload)"
    "json_text (http_post w jar COLLECTION_POST_URL payload) = Inr d"
    "getitem d ''redownload_urls'' = Inr rd"
    "values_of rd = Inr more"
    "ui' = ui\<lparr>download_urls := download_urls ui @ more\<rparr>"
    "st' = send (POST COLLECTION_POST_URL payload) ?st1"
    by auto
  with jar data ui urls show ?thesis
    by (simp add: send_def print_def)
qed

lemma generate_collection_post_payload_JInt:
  "collection_count ui = JInt n \<Longrightarrow>
   generate_collection_post_payload ui =
     Inr (JObj [(''fan_id'', user_id ui),
                (''count'', JInt (n - int (length (download_urls ui)))),
                (''older_than_token'', last_token ui)])"
  by (simp add: generate_collection_post_payload_def minus_int_def)

lemma get_user_collection_sent:
  assumes "generate_collection_post_payload ui = Inr payload"
    and "get_cookies cfg = Inr jar"
  shows "sent (snd (get_user_collection cfg w ui st)) =
           sent st @ [POST COLLECTION_POST_URL payload]"
proof -
  let ?st1 = "send (POST COLLECTION_POST_URL payload) st"
  have "snd (get_user_collection cfg w ui st) = ?st1"
    using assms
    by (simp add: get_user_collection_def Let_def split: sum.split)
  then show ?thesis
    by (simp add: send_def)
qed

lemma get_cookies_cases:
  "get_cookies cfg = Inl UnknownBrowser \<or> (\<exists>jar. get_cookies cfg = Inr jar)"
  by (simp add: get_cookies_def)
text \<open>
  C8. The body of the continuation request is the object with \<open>fan_id\<close> the fan
  identifier, \<open>count\<close> the declared total minus the number of URLs collected so far, and
  \<open>older_than_token\<close> the current token, and this is the body that \<open>get_user_collection\<close>
  posts to the listing endpoint.
\<close>

theorem generate_collection_post_payload_fields:
  assumes "collection_count ui = JInt n"
  shows "generate_collection_post_payload ui =
           Inr (JObj [(''fan_id'', user_id ui),
                      (''count'', JInt (n - int (length (download_urls ui)))),
                      (''older_than_token'', last_token ui)])
         \<and> (get_cookies cfg \<noteq> Inl UnknownBrowser \<longrightarrow>
              sent (snd (get_user_collection cfg w ui st)) =
                sent st @
                  [POST COLLECTION_POST_URL
                     (JObj [(''fan_id'', user_id ui),
                            (''count'', JInt (n - int (length (download_urls ui)))),
                            (''older_than_token'', last_token ui)])])"
proof (intro conjI impI)
  show p: "generate_collection_post_payload ui =
           Inr (JObj [(''fan_id'', user_id ui),
                      (''count'', JInt (n - int (length (download_urls ui)))),
                      (''older_than_token'', last_token ui)])"
    by (rule generate_collection_post_payload_JInt [OF assms])
  assume "get_cookies cfg \<noteq> Inl UnknownBrowser"
  with get_cookies_cases [of cfg] obtain jar where "get_cookies cfg = Inr jar"
    by blast
  from get_user_collection_sent [OF p this]
  show "sent (snd (get_user_collection cfg w ui st)) =
          sent st @
            [POST COLLECTION_POST_URL
               (JObj [(''fan_id'', user_id ui),
                      (''count'', JInt (n - int (length (download_urls ui)))),
                      (''older_than_token'', last_token ui)])]" .
qed

theorem generate_collection_post_payload_fields_witness:
  "collection_count ui_example = JInt 5
   \<and> generate_collection_post_payload ui_example =
       Inr (JObj [(''fan_id'', JInt 7), (''count'', JInt 3), (''older_than_token'', JStr ''t0'')])
   \<and> get_cookies cfg_flac \<noteq> Inl UnknownBrowser
   \<and> sent (snd (get_user_collection cfg_flac (enum_world not_found (listing [])) ui_example
                  st_empty)) =
       [POST COLLECTION_POST_URL
          (JObj [(''fan_id'', JInt 7), (''count'', JInt 3), (''older_than_token'', JStr ''t0'')])]"
proof -
  have c: "collection_count ui_example = JInt 5"
    by (simp add: ui_example_def)
  have b: "get_cookies cfg_flac \<noteq> Inl UnknownBrowser"
    by (simp add: get_cookies_def cfg_flac_def)
  have e: "sent st_empty = []"
    by (simp add: st_empty_def)
  have u: "user_id ui_example = JInt 7" "last_token ui_example = JStr ''t0''"
    "int (length (download_urls ui_example)) = 2"
    by (simp_all add: ui_example_def)
  from generate_collection_post_payload_fields
         [OF c, of cfg_flac "enum_world not_found (listing [])" st_empty] b c
  show ?thesis
    by (simp only: u e) simp
qed
text \<open>
  C1, as amended. There is no loop: whenever the enumeration returns a list, it has sent
  exactly one continuation request after the profile GET, whatever the first page held,
  and the list is the first page followed by the URLs of that one answer. Its length is the
  declared total exactly when the answer carries as many URLs as were asked for.
\<close>

theorem enumeration_sends_one_continuation:
  assumes "get_download_links_for_user cfg w user st = (Inr (Some urls), st')"
  shows "\<exists>jar data ui payload d rd more.
           get_cookies cfg = Inr jar \<and>
           pagedata (http_get w jar (USER_URL user)) = Div (Inr data) \<and>
           read_user_info data = Inr ui \<and>
           generate_collection_post_payload ui = Inr payload \<and>
           json_text (http_post w jar COLLECTION_POST_URL payload) = Inr d \<and>
           getitem d ''redownload_urls'' = Inr rd \<and>
           values_of rd = Inr more \<and>
           sent st' = sent st @ [GET (USER_URL user), POST COLLECTION_POST_URL payload] \<and>
           length urls = length (download_urls ui) + length more \<and>
           (\<forall>n. collection_count ui = JInt n \<longrightarrow>
              (int (length urls) = n \<longleftrightarrow>
               int (length more) = n - int (length (download_urls ui))))"
proof -
  from get_download_links_for_user_Some [OF assms]
  obtain jar data ui payload d rd more where
    h: "get_cookies cfg = Inr jar"
       "pagedata (http_get w jar (USER_URL user)) = Div (Inr data)"
       "read_user_info data = Inr ui"
       "generate_collection_post_payload ui = Inr payload"
       "json_text (http_post w jar COLLECTION_POST_URL payload) = Inr d"
       "getitem d ''redownload_urls'' = Inr rd"
       "values_of rd = Inr more"
       "sent st' = sent st @ [GET (USER_URL user), POST COLLECTION_POST_URL payload]"
    and u: "urls = download_urls ui @ more"
    by blast
  from u have "length urls = length (download_urls ui) + length more"
    by simp
  moreover from u have "\<forall>n. collection_count ui = JInt n \<longrightarrow>
      (int (length urls) = n \<longleftrightarrow>
       int (length more) = n - int (length (download_urls ui)))"
    by auto
  ultimately show ?thesis
    using h by blast
qed

theorem enumeration_sends_one_continuation_witness:
  "fst (get_download_links_for_user cfg_flac
          (enum_world (profile_page 3 [(''p1'', JStr ''https://bandcamp.com/download?id=1'')])
             (listing [(''p2'', JStr ''https://bandcamp.com/download?id=2''),
                       (''p3'', JStr ''https://bandcamp.com/download?id=3'')]))
          ''fan'' st_empty) =
     Inr (Some [JStr ''https://bandcamp.com/download?id=1'',
                JStr ''https://bandcamp.com/download?id=2'',
                JStr ''https://bandcamp.com/download?id=3''])
   \<and> (\<exists>(ui :: user_info) more payload.
          sent (snd (get_download_links_for_user cfg_flac
                  (enum_world
                     (profile_page 3 [(''p1'', JStr ''https://bandcamp.com/download?id=1'')])
                     (listing [(''p2'', JStr ''https://bandcamp.com/download?id=2''),
                               (''p3'', JStr ''https://bandcamp.com/download?id=3'')]))
                  ''fan'' st_empty)) =
            sent st_empty @ [GET (USER_URL ''fan''), POST COLLECTION_POST_URL payload]
          \<and> length [JStr ''https://bandcamp.com/download?id=1'',
                     JStr ''https://bandcamp.com/download?id=2'',
                     JStr ''https://bandcamp.com/download?id=3''] =
              length (download_urls ui) + length (more :: json list))"
proof -
  define w where "w = enum_world
      (profile_page 3 [(''p1'', JStr ''https://bandcamp.com/download?id=1'')])
      (listing [(''p2'', JStr ''https://bandcamp.com/download?id=2''),
                (''p3'', JStr ''https://bandcamp.com/download?id=3'')])"
  define urls where "urls = [JStr ''https://bandcamp.com/download?id=1'',
                JStr ''https://bandcamp.com/download?id=2'',
                JStr ''https://bandcamp.com/download?id=3'']"
  define E where "E = get_download_links_for_user cfg_flac w ''fan'' st_empty"
  have res: "fst E = Inr (Some urls)"
    unfolding E_def w_def urls_def by code_simp
  then have run: "get_download_links_for_user cfg_flac w ''fan'' st_empty = (Inr (Some urls), snd E)"
    by (simp add: prod_eq_iff E_def)
  from enumeration_sends_one_continuation [OF run] have
    "\<exists>(ui :: user_info) more payload.
       sent (snd E) = sent st_empty @ [GET (USER_URL ''fan''), POST COLLECTION_POST_URL payload]
       \<and> length urls = length (download_urls ui) + length (more :: json list)"
    by blast
  with res show ?thesis
    unfolding E_def w_def urls_def by blast
qed

theorem enumeration_stops_short_counterexample:
  "fst (get_download_links_for_user cfg_flac
          (enum_world (profile_page 3 [(''p1'', JStr ''https://bandcamp.com/download?id=1'')])
             (listing [(''p2'', JStr ''https://bandcamp.com/download?id=2'')]))
          ''fan'' st_empty) =
     Inr (Some [JStr ''https://bandcamp.com/download?id=1'',
                JStr ''https://bandcamp.com/download?id=2''])
   \<and> int (length [JStr ''https://bandcamp.com/download?id=1'',
                   JStr ''https://bandcamp.com/download?id=2'']) < 3
   \<and> sent (snd (get_download_links_for_user cfg_flac
          (enum_world (profile_page 3 [(''p1'', JStr ''https://bandcamp.com/download?id=1'')])
             (listing [(''p2'', JStr ''https://bandcamp.com/download?id=2'')]))
          ''fan'' st_empty)) =
     [GET ''https://bandcamp.com/fan'',
      POST COLLECTION_POST_URL
        (JObj [(''fan_id'', JInt 7), (''count'', JInt 2), (''older_than_token'', JStr ''t0'')])]"
  by code_simp
lemma values_of_Inr:
  "values_of x = Inr vs \<Longrightarrow> \<exists>kvs. x = JObj kvs \<and> vs = map snd kvs"
  by (cases x) (auto simp: values_of_def)

lemma read_user_info_first_page:
  assumes "read_user_info data = Inr ui"
  shows "\<exists>cd kvs. getitem data ''collection_data'' = Inr cd \<and>
           getitem cd ''redownload_urls'' = Inr (JObj kvs) \<and>
           download_urls ui = map snd kvs"
proof -
  from assms obtain cd ru vs where
    "getitem data ''collection_data'' = Inr cd"
    "getitem cd ''redownload_urls'' = Inr ru"
    "values_of ru = Inr vs"
    "download_urls ui = vs"
    by (auto simp: read_user_info_def split: sum.splits)
  with values_of_Inr [of ru vs] show ?thesis
    by auto
qed

text \<open>
  C2, as amended. The collection is a plain list and merging is concatenation: whenever
  the enumeration returns a list, it is the values of the first page's URL map followed by
  the values of the continuation answer's URL map, each in its own order and with nothing
  suppressed. It is free of duplicates exactly when both pages are and they share no URL.
\<close>

theorem enumeration_appends_pages:
  assumes "get_download_links_for_user cfg w user st = (Inr (Some urls), st')"
  shows "\<exists>jar data cd first_page payload d next_page.
           get_cookies cfg = Inr jar \<and>
           pagedata (http_get w jar (USER_URL user)) = Div (Inr data) \<and>
           getitem data ''collection_data'' = Inr cd \<and>
           getitem cd ''redownload_urls'' = Inr (JObj first_page) \<and>
           json_text (http_post w jar COLLECTION_POST_URL payload) = Inr d \<and>
           getitem d ''redownload_urls'' = Inr (JObj next_page) \<and>
           urls = map snd first_page @ map snd next_page \<and>
           (distinct urls \<longleftrightarrow>
              distinct (map snd first_page) \<and> distinct (map snd next_page) \<and>
              set (map snd first_page) \<inter> set (map snd next_page) = {})"
proof -
  from get_download_links_for_user_Some [OF assms]
  obtain jar data ui payload d rd more where
    h: "get_cookies cfg = Inr jar"
       "pagedata (http_get w jar (USER_URL user)) = Div (Inr data)"
       "json_text (http_post w jar COLLECTION_POST_URL payload) = Inr d"
    and ui: "read_user_info data = Inr ui"
    and rd: "getitem d ''redownload_urls'' = Inr rd" "values_of rd = Inr more"
    and u: "urls = download_urls ui @ more"
    by blast
  from read_user_info_first_page [OF ui] obtain cd first_page where
    f: "getitem data ''collection_data'' = Inr cd"
       "getitem cd ''redownload_urls'' = Inr (JObj first_page)"
       "download_urls ui = map snd first_page"
    by blast
  from values_of_Inr [OF rd(2)] obtain next_page where
    n: "rd = JObj next_page" "more = map snd next_page"
    by blast
  from u f(3) n(2) have cat: "urls = map snd first_page @ map snd next_page"
    by simp
  then have "distinct urls \<longleftrightarrow>
      distinct (map snd first_page) \<and> distinct (map snd next_page) \<and>
      set (map snd first_page) \<inter> set (map snd next_page) = {}"
    by (simp only: distinct_append)
  with h f(1,2) rd(1) n(1) cat show ?thesis
    by blast
qed

theorem enumeration_appends_pages_witness:
  "fst (get_download_links_for_user cfg_flac
          (enum_world (profile_page 3 [(''p1'', JStr ''https://bandcamp.com/download?id=1'')])
             (listing [(''p2'', JStr ''https://bandcamp.com/download?id=2''),
                       (''p3'', JStr ''https://bandcamp.com/download?id=3'')]))
          ''fan'' st_empty) =
     Inr (Some [JStr ''https://bandcamp.com/download?id=1'',
                JStr ''https://bandcamp.com/download?id=2'',
                JStr ''https://bandcamp.com/download?id=3''])
   \<and> (\<exists>first_page next_page.
          [JStr ''https://bandcamp.com/download?id=1'',
           JStr ''https://bandcamp.com/download?id=2'',
           JStr ''https://bandcamp.com/download?id=3''] =
            map snd (first_page :: (string \<times> json) list) @
              map snd (next_page :: (string \<times> json) list)
          \<and> distinct (map snd first_page) \<and> distinct (map snd next_page)
          \<and> set (map snd first_page) \<inter> set (map snd next_page) = {})"
proof -
  define w where "w = enum_world
      (profile_page 3 [(''p1'', JStr ''https://bandcamp.com/download?id=1'')])
      (listing [(''p2'', JStr ''https://bandcamp.com/download?id=2''),
                (''p3'', JStr ''https://bandcamp.com/download?id=3'')])"
  define urls where "urls = [JStr ''https://bandcamp.com/download?id=1'',
                JStr ''https://bandcamp.com/download?id=2'',
                JStr ''https://bandcamp.com/download?id=3'']"
  define E where "E = get_download_links_for_user cfg_flac w ''fan'' st_empty"
  have res: "fst E = Inr (Some urls)"
    unfolding E_def w_def urls_def by code_simp
  then have run: "get_download_links_for_user cfg_flac w ''fan'' st_empty = (Inr (Some urls), snd E)"
    by (simp add: prod_eq_iff E_def)
  have d: "distinct urls"
    unfolding urls_def by simp
  from enumeration_appends_pages [OF run] d have
    "\<exists>first_page next_page.
       urls = map snd (first_page :: (string \<times> json) list) @
              map snd (next_page :: (string \<times> json) list)
       \<and> distinct (map snd first_page) \<and> distinct (map snd next_page)
       \<and> set (map snd first_page) \<inter> set (map snd next_page) = {}"
    by blast
  with res show ?thesis
    unfolding E_def w_def urls_def by blast
qed

theorem enumeration_keeps_duplicates_counterexample:
  "fst (get_download_links_for_user cfg_flac
          (enum_world (profile_page 2 [(''p1'', JStr ''https://bandcamp.com/download?id=1'')])
             (listing [(''p1'', JStr ''https://bandcamp.com/download?id=1'')]))
          ''fan'' st_empty) =
     Inr (Some [JStr ''https://bandcamp.com/download?id=1'',
                JStr ''https://bandcamp.com/download?id=1''])
   \<and> \<not> distinct [JStr ''https://bandcamp.com/download?id=1'',
                   JStr ''https://bandcamp.com/download?id=1'']"
  by code_simp
section \<open>Properties of the file fetch\<close>


text \<open>What \<open>save\<close> leaves untouched, and how it can end.\<close>

lemma save_outcome:
  "fst (save cfg w r file_path st) = Inr out \<Longrightarrow> out = Written"
  by (auto simp: save_def Let_def split: prod.splits option.splits)


lemma save_frame:
  assumes "fs st1 = fs st2"
  shows "fst (save cfg w r file_path st1) = fst (save cfg w r file_path st2)"
    and "fs (snd (save cfg w r file_path st1)) = fs (snd (save cfg w r file_path st2))"
  using assms
  by (auto simp: save_def Let_def tqdm_update_def tqdm_write_def split: prod.splits option.splits)

text \<open>With \<open>force\<close> the size of what is there is never asked for.\<close>

lemma write_or_skip_force_save:
  assumes "FORCE cfg"
  shows "write_or_skip cfg w r file_path st =
           save cfg w r file_path
             (if path_exists w (fs st) file_path \<and> VERBOSE cfg > 0
              then tqdm_write (MsgForceOverwrite file_path) st else st)"
  using assms by (simp add: write_or_skip_def)


lemma write_or_skip_other_size:
  assumes "\<not> FORCE cfg"
    and "path_exists w (fs st) file_path"
    and "headers r ''content-length'' = Some cl"
    and "py_int cl = Inr declared"
    and "stat_size w (fs st) file_path = Inr actual"
    and "declared \<noteq> int actual"
  shows "write_or_skip cfg w r file_path st =
           save cfg w r file_path
             (if VERBOSE cfg \<ge> 2 then tqdm_write (MsgWrongSize file_path declared actual) st
              else st)"
  using assms by (simp add: write_or_skip_def)

lemma write_or_skip_absent:
  assumes "\<not> path_exists w (fs st) file_path"
  shows "write_or_skip cfg w r file_path st = save cfg w r file_path st"
  using assms by (simp add: write_or_skip_def)

text \<open>
  C4. The name comes from the \<open>filename*=UTF-8''\<close> parameter, percent-decoded, when the
  \<open>content-disposition\<close> header has one, and from the last segment of the URL when the
  header is there without that parameter. When the header is absent the lookup
  \<open>response.headers['content-disposition']\<close> raises \<open>KeyError\<close>: the fetch fails and nothing
  is written.
\<close>

theorem download_file_without_content_disposition:
  "filename_of (file_response track_disposition ''5'' ''abcde'') track_url =
     Inr ''Artist - Track.flac''
   \<and> filename_of (file_response ''attachment'' ''5'' ''abcde'') track_url = Inr ''track.zip''
   \<and> fst (download_file cfg_flac (file_world (file_response ''attachment'' ''5'' ''abcde''))
           (JStr track_url) (JStr ''Artist'') st_empty) = Inr Written
   \<and> fs (snd (download_file cfg_flac (file_world (file_response ''attachment'' ''5'' ''abcde''))
               (JStr track_url) (JStr ''Artist'') st_empty)) ''/music/Artist/track.zip'' =
       Some ''abcde''
   \<and> filename_of (bare_response ''5'' ''abcde'') track_url = Inl KeyError
   \<and> fst (download_file cfg_flac (file_world (bare_response ''5'' ''abcde''))
           (JStr track_url) (JStr ''Artist'') st_empty) = Inl KeyError
   \<and> fs (snd (download_file cfg_flac (file_world (bare_response ''5'' ''abcde''))
               (JStr track_url) (JStr ''Artist'') st_empty)) ''/music/Artist/track.zip'' = None"
  by code_simp

text \<open>
  C6. With \<open>force\<close> set the code goes from the existence test straight to the write and
  reads neither the size of the file nor the \<open>content-length\<close> header: a forced fetch
  whose response has a \<open>content-disposition\<close> header replaces a file that is already there.
  But the name is looked up before \<open>force\<close> is tested, so a forced fetch whose response has
  no \<open>content-disposition\<close> header raises \<open>KeyError\<close> and writes nothing: no new file
  appears under the name taken from the URL, and a file already there keeps its contents.
\<close>

theorem forced_fetch_without_content_disposition:
  "FORCE cfg_force
   \<and> fst (download_file cfg_force (file_world (file_response ''attachment'' ''5'' ''abcde''))
           (JStr track_url) (JStr ''Artist'')
           (st_with_file ''/music/Artist/track.zip'' ''vwxyz'')) = Inr Written
   \<and> fs (snd (download_file cfg_force (file_world (file_response ''attachment'' ''5'' ''abcde''))
               (JStr track_url) (JStr ''Artist'')
               (st_with_file ''/music/Artist/track.zip'' ''vwxyz'')))
        ''/music/Artist/track.zip'' = Some ''abcde''
   \<and> fst (download_file cfg_force (file_world (bare_response ''5'' ''abcde''))
           (JStr track_url) (JStr ''Artist'') st_empty) = Inl KeyError
   \<and> fs (snd (download_file cfg_force (file_world (bare_response ''5'' ''abcde''))
               (JStr track_url) (JStr ''Artist'') st_empty))
        ''/music/Artist/track.zip'' = None
   \<and> fst (download_file cfg_force (file_world (bare_response ''5'' ''abcde''))
           (JStr track_url) (JStr ''Artist'')
           (st_with_file ''/music/Artist/track.zip'' ''vwxyz'')) = Inl KeyError
   \<and> fs (snd (download_file cfg_force (file_world (bare_response ''5'' ''abcde''))
               (JStr track_url) (JStr ''Artist'')
               (st_with_file ''/music/Artist/track.zip'' ''vwxyz'')))
        ''/music/Artist/track.zip'' = Some ''vwxyz''"
  by code_simp
section \<open>What a call reads and changes\<close>

text \<open>
  The outcome of a call and the files it leaves depend on the state only through the file
  system: the progress bar, the printed lines and the request record are written, never
  read.
\<close>

lemma fs_simps [simp]:
  "fs (send q st) = fs st"
  "fs (tqdm_write m st) = fs st"
  "fs (tqdm_update st) = fs st"
  "fs (print m st) = fs st"
  by (simp_all add: send_def tqdm_write_def tqdm_update_def print_def)

lemma write_or_skip_frame:
  assumes "fs st1 = fs st2"
  shows "fst (write_or_skip cfg w r p st1) = fst (write_or_skip cfg w r p st2)"
    and "fs (snd (write_or_skip cfg w r p st1)) = fs (snd (write_or_skip cfg w r p st2))"
proof -
  have a: "fst (save cfg w r p s1) = fst (save cfg w r p s2)
         \<and> fs (snd (save cfg w r p s1)) = fs (snd (save cfg w r p s2))"
    if "fs s1 = fs s2" for s1 s2 :: "'a state"
    using save_frame [OF that] by simp
  have b: "fst (write_or_skip cfg w r p st1) = fst (write_or_skip cfg w r p st2)
         \<and> fs (snd (write_or_skip cfg w r p st1)) = fs (snd (write_or_skip cfg w r p st2))"
    unfolding write_or_skip_def using assms
    by (auto intro!: a simp: Let_def split: option.splits sum.splits)
  from b show "fst (write_or_skip cfg w r p st1) = fst (write_or_skip cfg w r p st2)"
    by (rule conjunct1)
  from b show "fs (snd (write_or_skip cfg w r p st1)) = fs (snd (write_or_skip cfg w r p st2))"
    by (rule conjunct2)
qed

lemma download_file_frame:
  assumes "fs st1 = fs st2"
  shows "fst (download_file cfg w url dir st1) = fst (download_file cfg w url dir st2)"
    and "fs (snd (download_file cfg w url dir st1)) = fs (snd (download_file cfg w url dir st2))"
  using assms write_or_skip_frame [of "send (GET u) st1" "send (GET u) st2" for u]
  by (auto simp: download_file_def Let_def split: sum.splits)

lemma download_album_frame:
  assumes "fs st1 = fs st2"
  shows "fst (download_album cfg w link st1) = fst (download_album cfg w link st2)"
    and "fs (snd (download_album cfg w link st1)) = fs (snd (download_album cfg w link st2))"
  using assms download_file_frame [of "send (GET u) st1" "send (GET u) st2" for u]
  by (auto simp: download_album_def Let_def split: sum.splits page.splits option.splits)

lemma for_loop_frame:
  assumes "fs st1 = fs st2"
  shows "fst (for_loop cfg w links st1) = fst (for_loop cfg w links st2)
       \<and> fs (snd (for_loop cfg w links st1)) = fs (snd (for_loop cfg w links st2))"
  using assms
proof (induction links arbitrary: st1 st2)
  case Nil
  then show ?case by simp
next
  case (Cons link links)
  obtain r1 s1 where a1: "download_album cfg w link st1 = (r1, s1)"
    by (cases "download_album cfg w link st1")
  obtain r2 s2 where a2: "download_album cfg w link st2 = (r2, s2)"
    by (cases "download_album cfg w link st2")
  from download_album_frame [OF Cons.prems, of cfg w link] a1 a2
  have r: "r1 = r2" and s: "fs s1 = fs s2"
    by simp_all
  from Cons.IH [OF s] a1 a2 r s show ?case
    by (cases r2) (auto split: prod.splits sum.splits)
qed

lemma executor_map_frame:
  assumes "fs st1 = fs st2"
  shows "fst (executor_map cfg w links st1) = fst (executor_map cfg w links st2)
       \<and> fs (snd (executor_map cfg w links st1)) = fs (snd (executor_map cfg w links st2))"
  using assms
proof (induction links arbitrary: st1 st2)
  case Nil
  then show ?case by simp
next
  case (Cons link links)
  obtain r1 s1 where a1: "download_album cfg w link st1 = (r1, s1)"
    by (cases "download_album cfg w link st1")
  obtain r2 s2 where a2: "download_album cfg w link st2 = (r2, s2)"
    by (cases "download_album cfg w link st2")
  from download_album_frame [OF Cons.prems, of cfg w link] a1 a2
  have r: "r1 = r2" and s: "fs s1 = fs s2"
    by simp_all
  from Cons.IH [OF s] a1 a2 r s show ?case
    by (auto split: prod.splits)
qed
section \<open>Properties of the loops\<close>

lemma for_loop_append:
  "for_loop cfg w (xs @ ys) st =
     (case for_loop cfg w xs st of
        (Inl e, s) \<Rightarrow> (Inl e, s)
      | (Inr outs, s) \<Rightarrow>
          (case for_loop cfg w ys s of
             (Inl e, s') \<Rightarrow> (Inl e, s')
           | (Inr outs', s') \<Rightarrow> (Inr (outs @ outs'), s')))"
proof (induction xs arbitrary: st)
  case Nil
  show ?case by (simp split: prod.splits sum.splits)
next
  case (Cons x xs)
  show ?case
    by (simp add: Cons.IH split: prod.splits sum.splits)
qed

lemma for_loop_length:
  "for_loop cfg w links st = (Inr outs, st') \<Longrightarrow> length outs = length links"
proof (induction links arbitrary: st outs)
  case Nil
  then show ?case by simp
next
  case (Cons x xs)
  then show ?case
    by (auto split: prod.splits sum.splits)
qed

lemma executor_map_append:
  "executor_map cfg w (xs @ ys) st =
     (case executor_map cfg w xs st of
        (rs, s) \<Rightarrow> (case executor_map cfg w ys s of (rs', s') \<Rightarrow> (rs @ rs', s')))"
proof (induction xs arbitrary: st)
  case Nil
  show ?case by (simp split: prod.splits)
next
  case (Cons x xs)
  show ?case
    by (simp add: Cons.IH split: prod.splits)
qed

lemma executor_map_length:
  "length (fst (executor_map cfg w links st)) = length links"
proof (induction links arbitrary: st)
  case Nil
  show ?case by simp
next
  case (Cons x xs)
  show ?case
    using Cons.IH by (simp split: prod.splits) (metis fst_conv)
qed
text \<open>
  An item that returns without touching the file system leaves the other items of the
  list where they would be without it.
\<close>

lemma for_loop_skip_item:
  assumes out: "\<And>s. fst (download_album cfg w a s) = Inr out"
    and same: "\<And>s. fs (snd (download_album cfg w a s)) = fs s"
  shows "fst (for_loop cfg w (xs @ a # ys) st) =
           (case fst (for_loop cfg w (xs @ ys) st) of
              Inl e \<Rightarrow> Inl e
            | Inr outs \<Rightarrow> Inr (take (length xs) outs @ out # drop (length xs) outs))"
    and "fs (snd (for_loop cfg w (xs @ a # ys) st)) = fs (snd (for_loop cfg w (xs @ ys) st))"
proof -
  obtain r s where xs: "for_loop cfg w xs st = (r, s)"
    by (cases "for_loop cfg w xs st")
  obtain s1 where a: "download_album cfg w a s = (Inr out, s1)"
    using out [of s] by (cases "download_album cfg w a s") simp
  from same [of s] a have s1: "fs s1 = fs s"
    by simp
  obtain r1 t1 where y1: "for_loop cfg w ys s1 = (r1, t1)"
    by (cases "for_loop cfg w ys s1")
  obtain r2 t2 where y2: "for_loop cfg w ys s = (r2, t2)"
    by (cases "for_loop cfg w ys s")
  from for_loop_frame [OF s1, of cfg w ys] y1 y2 have r12: "r1 = r2" and t12: "fs t1 = fs t2"
    by simp_all
  have both: "fst (for_loop cfg w (xs @ a # ys) st) =
           (case fst (for_loop cfg w (xs @ ys) st) of
              Inl e \<Rightarrow> Inl e
            | Inr outs \<Rightarrow> Inr (take (length xs) outs @ out # drop (length xs) outs))
       \<and> fs (snd (for_loop cfg w (xs @ a # ys) st)) = fs (snd (for_loop cfg w (xs @ ys) st))"
  proof (cases r)
    case (Inl e)
    with xs show ?thesis
      by (simp add: for_loop_append)
  next
    case (Inr outs)
    with xs have len: "length outs = length xs"
      by (auto dest: for_loop_length)
    show ?thesis
    proof (cases r2)
      case (Inl e)
      with Inr xs a y1 y2 r12 t12 show ?thesis
        by (simp add: for_loop_append)
    next
      case (Inr outs')
      with \<open>r = Inr outs\<close> xs a y1 y2 r12 t12 len show ?thesis
        by (simp add: for_loop_append)
    qed
  qed
  from both show "fst (for_loop cfg w (xs @ a # ys) st) =
           (case fst (for_loop cfg w (xs @ ys) st) of
              Inl e \<Rightarrow> Inl e
            | Inr outs \<Rightarrow> Inr (take (length xs) outs @ out # drop (length xs) outs))"
    by (rule conjunct1)
  from both show "fs (snd (for_loop cfg w (xs @ a # ys) st)) =
      fs (snd (for_loop cfg w (xs @ ys) st))"
    by (rule conjunct2)
qed

lemma executor_map_skip_item:
  assumes out: "\<And>s. fst (download_album cfg w a s) = r"
    and same: "\<And>s. fs (snd (download_album cfg w a s)) = fs s"
  shows "fst (executor_map cfg w (xs @ a # ys) st) =
           take (length xs) (fst (executor_map cfg w (xs @ ys) st)) @ r #
           drop (length xs) (fst (executor_map cfg w (xs @ ys) st))"
    and "fs (snd (executor_map cfg w (xs @ a # ys) st)) =
           fs (snd (executor_map cfg w (xs @ ys) st))"
proof -
  obtain rs s where xs: "executor_map cfg w xs st = (rs, s)"
    by (cases "executor_map cfg w xs st")
  then have len: "length rs = length xs"
    using executor_map_length [of cfg w xs st] by simp
  obtain s1 where a: "download_album cfg w a s = (r, s1)"
    using out [of s] by (cases "download_album cfg w a s") simp
  from same [of s] a have s1: "fs s1 = fs s"
    by simp
  obtain r1 t1 where y1: "executor_map cfg w ys s1 = (r1, t1)"
    by (cases "executor_map cfg w ys s1")
  obtain r2 t2 where y2: "executor_map cfg w ys s = (r2, t2)"
    by (cases "executor_map cfg w ys s")
  from executor_map_frame [OF s1, of cfg w ys] y1 y2 have r12: "r1 = r2" and t12: "fs t1 = fs t2"
    by simp_all
  from xs a y1 y2 r12 len
  show "fst (executor_map cfg w (xs @ a # ys) st) =
           take (length xs) (fst (executor_map cfg w (xs @ ys) st)) @ r #
           drop (length xs) (fst (executor_map cfg w (xs @ ys) st))"
    by (simp add: executor_map_append)
  from xs a y1 y2 t12
  show "fs (snd (executor_map cfg w (xs @ a # ys) st)) =
           fs (snd (executor_map cfg w (xs @ ys) st))"
    by (simp add: executor_map_append)
qed
section \<open>Properties of the album resolution\<close>

lemma download_album_no_format:
  assumes "get_cookies cfg = Inr jar"
    and "pagedata (http_get w jar url) = Div (Inr data)"
    and "resolve cfg data = Inr (artist, album, None)"
  shows "download_album cfg w (JStr url) st =
           (Inr NoFormat,
            tqdm_update (tqdm_write (MsgNoFormat album (JStr url) (FORMAT cfg)) (send (GET url) st)))"
  using assms by (simp add: download_album_def as_url_def Let_def)

lemma resolve_no_format:
  assumes "first_item data = Inr item"
    and "getitem item ''artist'' = Inr artist"
    and "getitem item ''title'' = Inr album"
    and "getitem item ''downloads'' = Inr (JObj formats)"
    and "FORMAT cfg \<notin> set (map fst formats)"
  shows "resolve cfg data = Inr (artist, album, None)"
  using assms by (simp add: resolve_def contains_def)

text \<open>
  C7. When the download map of the album's first item lacks the configured format, the
  call returns through the no-format exit: the only request sent is the GET of the album
  page (no file is fetched), exactly one line is written, the warning carrying the album
  title, the URL and the format, the progress bar advances by one and no file changes.
  The other albums of the list come out as they would without this album, in the loop and
  in the pool.
\<close>

theorem download_album_format_missing:
  assumes "get_cookies cfg = Inr jar"
    and "pagedata (http_get w jar url) = Div (Inr data)"
    and "first_item data = Inr item"
    and "getitem item ''artist'' = Inr artist"
    and "getitem item ''title'' = Inr album"
    and "getitem item ''downloads'' = Inr (JObj formats)"
    and "FORMAT cfg \<notin> set (map fst formats)"
  shows "fst (download_album cfg w (JStr url) st) = Inr NoFormat
       \<and> sent (snd (download_album cfg w (JStr url) st)) = sent st @ [GET url]
       \<and> tqdm_out (snd (download_album cfg w (JStr url) st)) =
           tqdm_out st @ [MsgNoFormat album (JStr url) (FORMAT cfg)]
       \<and> tqdm_n (snd (download_album cfg w (JStr url) st)) = tqdm_n st + 1
       \<and> fs (snd (download_album cfg w (JStr url) st)) = fs st
       \<and> fst (for_loop cfg w (before @ JStr url # after) st) =
           (case fst (for_loop cfg w (before @ after) st) of
              Inl e \<Rightarrow> Inl e
            | Inr outs \<Rightarrow>
                Inr (take (length before) outs @ NoFormat # drop (length before) outs))
       \<and> fs (snd (for_loop cfg w (before @ JStr url # after) st)) =
           fs (snd (for_loop cfg w (before @ after) st))
       \<and> fst (executor_map cfg w (before @ JStr url # after) st) =
           take (length before) (fst (executor_map cfg w (before @ after) st)) @
           Inr NoFormat #
           drop (length before) (fst (executor_map cfg w (before @ after) st))
       \<and> fs (snd (executor_map cfg w (before @ JStr url # after) st)) =
           fs (snd (executor_map cfg w (before @ after) st))"
proof -
  have res: "resolve cfg data = Inr (artist, album, None)"
    by (rule resolve_no_format [OF assms(3-7)])
  have call: "\<And>s. download_album cfg w (JStr url) s =
      (Inr NoFormat,
       tqdm_update (tqdm_write (MsgNoFormat album (JStr url) (FORMAT cfg)) (send (GET url) s)))"
    by (rule download_album_no_format [OF assms(1,2) res])
  have out: "\<And>s. fst (download_album cfg w (JStr url) s) = Inr NoFormat"
    by (simp add: call)
  have same: "\<And>s. fs (snd (download_album cfg w (JStr url) s)) = fs s"
    by (simp add: call)
  have "sent (snd (download_album cfg w (JStr url) st)) = sent st @ [GET url]"
    by (simp add: call tqdm_update_def tqdm_write_def send_def)
  moreover have "tqdm_out (snd (download_album cfg w (JStr url) st)) =
      tqdm_out st @ [MsgNoFormat album (JStr url) (FORMAT cfg)]"
    by (simp add: call tqdm_update_def tqdm_write_def send_def)
  moreover have "tqdm_n (snd (download_album cfg w (JStr url) st)) = tqdm_n st + 1"
    by (simp add: call tqdm_update_def tqdm_write_def send_def)
  moreover note out [of st] same [of st]
    for_loop_skip_item [of cfg w "JStr url" NoFormat before after st, OF out same]
    executor_map_skip_item [of cfg w "JStr url" "Inr NoFormat" before after st, OF out same]
  ultimately show ?thesis
    by (intro conjI)
qed

theorem download_album_format_missing_witness:
  "get_cookies cfg_flac = Inr (Jar ''firefox'')
   \<and> pagedata (http_get mp3_only_site (Jar ''firefox'') album_url) =
       Div (Inr (JObj [(''download_items'', JArr [mp3_only_item])]))
   \<and> first_item (JObj [(''download_items'', JArr [mp3_only_item])]) = Inr mp3_only_item
   \<and> getitem mp3_only_item ''artist'' = Inr (JStr ''Artist'')
   \<and> getitem mp3_only_item ''title'' = Inr (JStr ''Album'')
   \<and> getitem mp3_only_item ''downloads'' = Inr (JObj [format_entry ''mp3-320'' track_url])
   \<and> FORMAT cfg_flac \<notin> set (map fst [format_entry ''mp3-320'' track_url])
   \<and> fst (download_album cfg_flac mp3_only_site (JStr album_url) st_empty) = Inr NoFormat
   \<and> sent (snd (download_album cfg_flac mp3_only_site (JStr album_url) st_empty)) =
       [GET album_url]
   \<and> tqdm_out (snd (download_album cfg_flac mp3_only_site (JStr album_url) st_empty)) =
       [MsgNoFormat (JStr ''Album'') (JStr album_url) ''flac'']"
proof -
  have c: "get_cookies cfg_flac = Inr (Jar ''firefox'')"
    by code_simp
  have p: "pagedata (http_get mp3_only_site (Jar ''firefox'') album_url) =
      Div (Inr (JObj [(''download_items'', JArr [mp3_only_item])]))"
    by code_simp
  have i: "first_item (JObj [(''download_items'', JArr [mp3_only_item])]) = Inr mp3_only_item"
    by code_simp
  have a: "getitem mp3_only_item ''artist'' = Inr (JStr ''Artist'')"
    by code_simp
  have t: "getitem mp3_only_item ''title'' = Inr (JStr ''Album'')"
    by code_simp
  have d: "getitem mp3_only_item ''downloads'' = Inr (JObj [format_entry ''mp3-320'' track_url])"
    by code_simp
  have f: "FORMAT cfg_flac \<notin> set (map fst [format_entry ''mp3-320'' track_url])"
    by code_simp
  have e: "sent st_empty = []" "tqdm_out st_empty = []" "FORMAT cfg_flac = ''flac''"
    by (simp_all add: st_empty_def cfg_flac_def)
  from download_album_format_missing [OF c p i a t d f, of st_empty "[]" "[]"]
  have "fst (download_album cfg_flac mp3_only_site (JStr album_url) st_empty) = Inr NoFormat"
    and "sent (snd (download_album cfg_flac mp3_only_site (JStr album_url) st_empty)) =
       [GET album_url]"
    and "tqdm_out (snd (download_album cfg_flac mp3_only_site (JStr album_url) st_empty)) =
       [MsgNoFormat (JStr ''Album'') (JStr album_url) ''flac'']"
    by (simp_all only: e append_Nil)
  with c p i a t d f show ?thesis
    by (intro conjI)
qed

lemma write_or_skip_outcome:
  "fst (write_or_skip cfg w r p st) = Inr out \<Longrightarrow> out = Skipped \<or> out = Written"
  by (auto simp: write_or_skip_def Let_def split: option.splits sum.splits if_splits
      dest: save_outcome)

lemma download_file_outcome:
  "fst (download_file cfg w url dir st) = Inr out \<Longrightarrow> out = Skipped \<or> out = Written"
  by (auto simp: download_file_def Let_def split: sum.splits if_splits
      dest: write_or_skip_outcome)

lemma resolve_None:
  assumes "resolve cfg data = Inr (artist, album, None)"
  shows "\<exists>item downloads. first_item data = Inr item \<and>
           getitem item ''downloads'' = Inr downloads \<and>
           contains downloads (FORMAT cfg) = Inr False"
  using assms by (auto simp: resolve_def split: sum.splits bool.splits)

lemma download_album_NoPagedata:
  assumes "get_cookies cfg = Inr jar"
    and "fst (download_album cfg w (JStr url) st) = Inr NoPagedata"
  shows "pagedata (http_get w jar url) = NoDiv"
  using assms
  by (auto simp: download_album_def as_url_def Let_def
      split: sum.splits page.splits option.splits dest: download_file_outcome)

lemma download_album_NoFormat:
  assumes "get_cookies cfg = Inr jar"
    and "fst (download_album cfg w (JStr url) st) = Inr NoFormat"
  shows "\<exists>data artist album. pagedata (http_get w jar url) = Div (Inr data) \<and>
           resolve cfg data = Inr (artist, album, None)"
  using assms
  by (auto simp: download_album_def as_url_def Let_def
      split: sum.splits page.splits option.splits dest: download_file_outcome)

lemma download_album_empty_items:
  assumes "get_cookies cfg = Inr jar"
    and "pagedata (http_get w jar url) = Div (Inr data)"
    and "getitem data ''download_items'' = Inr (JArr [])"
  shows "download_album cfg w (JStr url) st = (Inl IndexError, send (GET url) st)"
  using assms
  by (simp add: download_album_def as_url_def Let_def resolve_def first_item_def getitem0_def)

text \<open>
  C10. When the payload of an album page is there and decodes but its list of download
  items is empty, reading the first item raises \<open>IndexError\<close>: the call leaves through the
  exception after the one GET, and the loop of the sequential path ends with it. The two
  skipping exits are taken only when the page has no payload element, or when the first
  item's download map does not hold the format.
\<close>

theorem download_album_empty_items_raises:
  assumes "get_cookies cfg = Inr jar"
  shows "(pagedata (http_get w jar url) = Div (Inr data) \<and>
          getitem data ''download_items'' = Inr (JArr []) \<longrightarrow>
            download_album cfg w (JStr url) st = (Inl IndexError, send (GET url) st) \<and>
            for_loop cfg w (JStr url # links) st = (Inl IndexError, send (GET url) st))
       \<and> (fst (download_album cfg w (JStr url) st) = Inr NoPagedata \<longrightarrow>
            pagedata (http_get w jar url) = NoDiv)
       \<and> (fst (download_album cfg w (JStr url) st) = Inr NoFormat \<longrightarrow>
            (\<exists>payload item downloads.
               pagedata (http_get w jar url) = Div (Inr payload) \<and>
               first_item payload = Inr item \<and>
               getitem item ''downloads'' = Inr downloads \<and>
               contains downloads (FORMAT cfg) = Inr False))"
proof (intro conjI impI)
  assume "pagedata (http_get w jar url) = Div (Inr data) \<and>
          getitem data ''download_items'' = Inr (JArr [])"
  then have a: "download_album cfg w (JStr url) st = (Inl IndexError, send (GET url) st)"
    using download_album_empty_items [OF assms] by blast
  then show "download_album cfg w (JStr url) st = (Inl IndexError, send (GET url) st)" .
  from a show "for_loop cfg w (JStr url # links) st = (Inl IndexError, send (GET url) st)"
    by simp
next
  assume "fst (download_album cfg w (JStr url) st) = Inr NoPagedata"
  then show "pagedata (http_get w jar url) = NoDiv"
    by (rule download_album_NoPagedata [OF assms])
next
  assume "fst (download_album cfg w (JStr url) st) = Inr NoFormat"
  from download_album_NoFormat [OF assms this] obtain payload artist album where
    p: "pagedata (http_get w jar url) = Div (Inr payload)"
    and r: "resolve cfg payload = Inr (artist, album, None)"
    by blast
  from resolve_None [OF r] p
  show "\<exists>payload item downloads.
          pagedata (http_get w jar url) = Div (Inr payload) \<and>
          first_item payload = Inr item \<and>
          getitem item ''downloads'' = Inr downloads \<and>
          contains downloads (FORMAT cfg) = Inr False"
    by blast
qed

theorem download_album_empty_items_raises_witness:
  "get_cookies cfg_flac = Inr (Jar ''firefox'')
   \<and> pagedata (http_get empty_items_site (Jar ''firefox'') album_url) =
       Div (Inr (JObj [(''download_items'', JArr [])]))
   \<and> getitem (JObj [(''download_items'', JArr [])]) ''download_items'' = Inr (JArr [])
   \<and> download_album cfg_flac empty_items_site (JStr album_url) st_empty =
       (Inl IndexError, send (GET album_url) st_empty)
   \<and> for_loop cfg_flac empty_items_site [JStr album_url, JStr album_url] st_empty =
       (Inl IndexError, send (GET album_url) st_empty)
   \<and> fst (download_album cfg_flac mp3_only_site (JStr album_url) st_empty) = Inr NoFormat
   \<and> (\<exists>payload item downloads.
         pagedata (http_get mp3_only_site (Jar ''firefox'') album_url) = Div (Inr payload) \<and>
         first_item payload = Inr item \<and>
         getitem item ''downloads'' = Inr downloads \<and>
         contains downloads (FORMAT cfg_flac) = Inr False)
   \<and> fst (download_album cfg_flac (site [] not_found) (JStr album_url) st_empty) =
       Inr NoPagedata
   \<and> pagedata (http_get (site [] not_found) (Jar ''firefox'') album_url) = NoDiv"
proof -
  have c: "get_cookies cfg_flac = Inr (Jar ''firefox'')"
    by code_simp
  have p: "pagedata (http_get empty_items_site (Jar ''firefox'') album_url) =
       Div (Inr (JObj [(''download_items'', JArr [])]))"
    by code_simp
  have g: "getitem (JObj [(''download_items'', JArr [])]) ''download_items'' = Inr (JArr [])"
    by code_simp
  have f: "fst (download_album cfg_flac mp3_only_site (JStr album_url) st_empty) = Inr NoFormat"
    by code_simp
  have n: "fst (download_album cfg_flac (site [] not_found) (JStr album_url) st_empty) =
       Inr NoPagedata"
    by code_simp
  note e = download_album_empty_items_raises
    [OF c, of empty_items_site album_url "JObj [(''download_items'', JArr [])]" st_empty
       "[JStr album_url]"]
  note m = download_album_empty_items_raises [OF c, of mp3_only_site album_url _ st_empty]
  note s = download_album_empty_items_raises [OF c, of "site [] not_found" album_url _ st_empty]
  from e p g have "download_album cfg_flac empty_items_site (JStr album_url) st_empty =
       (Inl IndexError, send (GET album_url) st_empty)"
    and "for_loop cfg_flac empty_items_site [JStr album_url, JStr album_url] st_empty =
       (Inl IndexError, send (GET album_url) st_empty)"
    by blast+
  moreover from m f have "\<exists>payload item downloads.
         pagedata (http_get mp3_only_site (Jar ''firefox'') album_url) = Div (Inr payload) \<and>
         first_item payload = Inr item \<and>
         getitem item ''downloads'' = Inr downloads \<and>
         contains downloads (FORMAT cfg_flac) = Inr False"
    by blast
  moreover from s n have "pagedata (http_get (site [] not_found) (Jar ''firefox'') album_url) = NoDiv"
    by blast
  ultimately show ?thesis
    using c p g f n by (intro conjI)
qed
section \<open>Properties of the run\<close>

text \<open>
  The enumeration does not read the state and leaves the files alone, and the outcome of
  either loop depends only on the files, so the exit status of \<open>main\<close> can be told from the
  initial state.
\<close>

lemma get_user_collection_indep:
  "fst (get_user_collection cfg w ui st) = fst (get_user_collection cfg w ui st')"
  "fs (snd (get_user_collection cfg w ui st)) = fs st"
  by (auto simp: get_user_collection_def Let_def split: sum.splits)

text \<open>The call written with the two components of what \<open>get_user_collection\<close> gives.\<close>

lemma get_download_links_for_user_parts:
  assumes "get_cookies cfg = Inr jar"
    and "pagedata (http_get w jar (USER_URL user)) = Div (Inr data)"
    and "read_user_info data = Inr ui"
    and "st1 = send (GET (USER_URL user)) (print (MsgRetrieving user) st)"
  shows "fst (get_download_links_for_user cfg w user st) =
           (case fst (get_user_collection cfg w ui st1) of
              Inl e \<Rightarrow> Inl e
            | Inr ui' \<Rightarrow> Inr (Some (download_urls ui')))"
    and "snd (get_download_links_for_user cfg w user st) = snd (get_user_collection cfg w ui st1)"
  using assms
  by (auto simp: get_download_links_for_user_def Let_def split: sum.splits prod.splits)

lemma get_download_links_for_user_indep:
  "fst (get_download_links_for_user cfg w user st) =
     fst (get_download_links_for_user cfg w user st')"
proof (cases "get_cookies cfg")
  case (Inl e)
  then show ?thesis
    by (simp add: get_download_links_for_user_def Let_def)
next
  case jar: (Inr jar)
  show ?thesis
  proof (cases "pagedata (http_get w jar (USER_URL user))")
    case NoDiv
    with jar show ?thesis
      by (simp add: get_download_links_for_user_def Let_def)
  next
    case (Div blob)
    show ?thesis
    proof (cases blob)
      case (Inl e)
      with jar Div show ?thesis
        by (simp add: get_download_links_for_user_def Let_def)
    next
      case data: (Inr data)
      show ?thesis
      proof (cases "read_user_info data")
        case (Inl e)
        with jar Div data show ?thesis
          by (simp add: get_download_links_for_user_def Let_def)
      next
        case (Inr ui)
        from Div data have page: "pagedata (http_get w jar (USER_URL user)) = Div (Inr data)"
          by simp
        show ?thesis
          by (simp only: get_download_links_for_user_parts(1) [OF jar page Inr refl]
              get_user_collection_indep(1)
                [of cfg w ui "send (GET (USER_URL user)) (print (MsgRetrieving user) st)"
                   "send (GET (USER_URL user)) (print (MsgRetrieving user) st')"])
      qed
    qed
  qed
qed

lemma get_download_links_for_user_fs:
  "fs (snd (get_download_links_for_user cfg w user st)) = fs st"
proof (cases "get_cookies cfg")
  case (Inl e)
  then show ?thesis
    by (simp add: get_download_links_for_user_def Let_def)
next
  case jar: (Inr jar)
  show ?thesis
  proof (cases "pagedata (http_get w jar (USER_URL user))")
    case NoDiv
    with jar show ?thesis
      by (simp add: get_download_links_for_user_def Let_def)
  next
    case (Div blob)
    show ?thesis
    proof (cases blob)
      case (Inl e)
      with jar Div show ?thesis
        by (simp add: get_download_links_for_user_def Let_def)
    next
      case data: (Inr data)
      show ?thesis
      proof (cases "read_user_info data")
        case (Inl e)
        with jar Div data show ?thesis
          by (simp add: get_download_links_for_user_def Let_def)
      next
        case (Inr ui)
        from Div data have page: "pagedata (http_get w jar (USER_URL user)) = Div (Inr data)"
          by simp
        show ?thesis
          by (simp add: get_download_links_for_user_parts(2) [OF jar page Inr refl]
              get_user_collection_indep(2))
      qed
    qed
  qed
qed
lemma main_exit_status:
  assumes "browser a \<in> set SUPPORTED_BROWSERS"
    and "format a \<in> set SUPPORTED_FILE_FORMATS"
    and "1 \<le> parallel_downloads a"
    and "parallel_downloads a \<le> MAX_THREADS"
  shows "fst (main a w st) =
           (case fst (get_download_links_for_user (config_of a) w (username a) st) of
              Inl e \<Rightarrow> 1
            | Inr None \<Rightarrow> if verbose a > 0 then 1 else 2
            | Inr (Some links) \<Rightarrow>
                if links = [] then 2
                else if parallel_downloads a > 1 then 0
                else (case fst (for_loop (config_of a) w links st) of
                        Inl e \<Rightarrow> 1
                      | Inr outs \<Rightarrow> 0))"
proof -
  define cfg where "cfg = config_of a"
  define st2 where "st2 =
    (if FORCE cfg then print MsgForceSet (if VERBOSE cfg > 0 then print MsgArgs st else st)
     else (if VERBOSE cfg > 0 then print MsgArgs st else st))"
  have v: "VERBOSE cfg = verbose a"
    by (simp add: cfg_def config_of_def)
  have fs2: "fs st2 = fs st"
    by (simp add: st2_def)
  obtain r st3 where E: "get_download_links_for_user cfg w (username a) st2 = (r, st3)"
    by (cases "get_download_links_for_user cfg w (username a) st2")
  have r: "fst (get_download_links_for_user cfg w (username a) st) = r"
    using get_download_links_for_user_indep [of cfg w "username a" st st2] E by simp
  have fs3: "fs st3 = fs st"
    using get_download_links_for_user_fs [of cfg w "username a" st2] E fs2 by simp
  have m: "main a w st =
      (case (r, st3) of
         (Inl e, st3) \<Rightarrow> (1, st3)
       | (Inr None, st3) \<Rightarrow>
           if VERBOSE cfg > 0 then (1, st3) else (2, print (MsgNoLinks (username a)) st3)
       | (Inr (Some links), st3) \<Rightarrow>
           (let st4 = (if VERBOSE cfg > 0
                       then print (MsgFound (length links) (username a)) st3 else st3)
            in if links = [] then (2, print (MsgNoLinks (username a)) st4)
               else
                 (let st5 = (print MsgStarting st4)\<lparr>tqdm_n := 0\<rparr>
                  in if parallel_downloads a > 1 then
                       (case executor_map cfg w links st5 of
                          (rs, st6) \<Rightarrow> (0, print MsgDone st6))
                     else
                       (case for_loop cfg w links st5 of
                          (Inl e, st6) \<Rightarrow> (1, st6)
                        | (Inr outs, st6) \<Rightarrow> (0, print MsgDone st6)))))"
    using assms E by (simp add: main_def Let_def cfg_def [symmetric] st2_def [symmetric])
  show ?thesis
  proof (cases r)
    case (Inl e)
    with m r show ?thesis
      by (simp add: cfg_def)
  next
    case (Inr links_opt)
    show ?thesis
    proof (cases links_opt)
      case None
      with Inr m r v show ?thesis
        by (simp add: cfg_def)
    next
      case (Some links)
      define st5 where "st5 =
        (print MsgStarting
           (if VERBOSE cfg > 0 then print (MsgFound (length links) (username a)) st3
            else st3))\<lparr>tqdm_n := 0\<rparr>"
      have fs5: "fs st5 = fs st"
        using fs3 by (simp add: st5_def print_def)
      obtain r' st6 where L: "for_loop cfg w links st5 = (r', st6)"
        by (cases "for_loop cfg w links st5")
      have r': "fst (for_loop cfg w links st) = r'"
        using for_loop_frame [OF fs5, of cfg w links] L by simp
      obtain rs st7 where X: "executor_map cfg w links st5 = (rs, st7)"
        by (cases "executor_map cfg w links st5")
      from Some Inr m L X have "fst (main a w st) =
          (if links = [] then 2
           else if parallel_downloads a > 1 then 0
           else (case r' of Inl e \<Rightarrow> 1 | Inr outs \<Rightarrow> 0))"
        by (cases r') (simp_all add: Let_def st5_def [symmetric])
      with Some Inr r r' show ?thesis
        by (simp add: cfg_def)
    qed
  qed
qed
lemma get_cookies_supported:
  "browser a \<in> set SUPPORTED_BROWSERS \<Longrightarrow> get_cookies (config_of a) = Inr (Jar (browser a))"
  by (auto simp: SUPPORTED_BROWSERS_def get_cookies_def config_of_def)

lemma get_download_links_for_user_NoDiv:
  assumes "get_cookies cfg = Inr jar"
    and "pagedata (http_get w jar (USER_URL user)) = NoDiv"
  shows "fst (get_download_links_for_user cfg w user st) = Inr None"
  using assms by (simp add: get_download_links_for_user_def Let_def)

text \<open>
  C9, as amended. For options that pass the parser: the run exits with status 2 when the
  enumeration finds no item, and with the same status 2 when (without \<open>--verbose\<close>) the
  profile page has no payload element, so the two cases cannot be told apart by the exit
  status; it exits with 1 when the enumeration raises; it exits with 0 when the list is not
  empty and either the pool is used or no item of the sequential loop raises.
\<close>

theorem main_exit_codes:
  assumes "browser a \<in> set SUPPORTED_BROWSERS"
    and "format a \<in> set SUPPORTED_FILE_FORMATS"
    and "1 \<le> parallel_downloads a"
    and "parallel_downloads a \<le> MAX_THREADS"
  shows "(pagedata (http_get w (Jar (browser a)) (USER_URL (username a))) = NoDiv \<and>
          verbose a = 0 \<longrightarrow> fst (main a w st) = 2)
       \<and> (fst (get_download_links_for_user (config_of a) w (username a) st) = Inr (Some []) \<longrightarrow>
            fst (main a w st) = 2)
       \<and> (\<forall>e. fst (get_download_links_for_user (config_of a) w (username a) st) = Inl e \<longrightarrow>
            fst (main a w st) = 1)
       \<and> (\<forall>links.
            fst (get_download_links_for_user (config_of a) w (username a) st) =
              Inr (Some links) \<and>
            links \<noteq> [] \<and> parallel_downloads a > 1 \<longrightarrow>
            fst (main a w st) = 0)
       \<and> (\<forall>links outs.
            fst (get_download_links_for_user (config_of a) w (username a) st) =
              Inr (Some links) \<and>
            links \<noteq> [] \<and> fst (for_loop (config_of a) w links st) = Inr outs \<longrightarrow>
            fst (main a w st) = 0)"
proof (intro conjI allI impI)
  note m = main_exit_status [OF assms, of w st]
  {
    assume h: "pagedata (http_get w (Jar (browser a)) (USER_URL (username a))) = NoDiv \<and>
      verbose a = 0"
    from get_download_links_for_user_NoDiv [OF get_cookies_supported [OF assms(1)], of w]
      h
    have "fst (get_download_links_for_user (config_of a) w (username a) st) = Inr None"
      by blast
    with h m show "fst (main a w st) = 2"
      by simp
  }
  {
    assume "fst (get_download_links_for_user (config_of a) w (username a) st) = Inr (Some [])"
    with m show "fst (main a w st) = 2"
      by simp
  }
  {
    fix e
    assume "fst (get_download_links_for_user (config_of a) w (username a) st) = Inl e"
    with m show "fst (main a w st) = 1"
      by simp
  }
  {
    fix links
    assume "fst (get_download_links_for_user (config_of a) w (username a) st) =
        Inr (Some links) \<and> links \<noteq> [] \<and> parallel_downloads a > 1"
    with m show "fst (main a w st) = 0"
      by simp
  }
  {
    fix links outs
    assume "fst (get_download_links_for_user (config_of a) w (username a) st) =
        Inr (Some links) \<and> links \<noteq> [] \<and> fst (for_loop (config_of a) w links st) = Inr outs"
    with m show "fst (main a w st) = 0"
      by simp
  }
qed

theorem main_exit_codes_witness:
  "browser args_seq \<in> set SUPPORTED_BROWSERS
   \<and> format args_seq \<in> set SUPPORTED_FILE_FORMATS
   \<and> 1 \<le> parallel_downloads args_seq
   \<and> parallel_downloads args_seq \<le> MAX_THREADS
   \<and> pagedata (http_get no_payload_site (Jar (browser args_seq)) (USER_URL (username args_seq))) =
       NoDiv
   \<and> verbose args_seq = 0
   \<and> fst (main args_seq no_payload_site st_empty) = 2
   \<and> fst (get_download_links_for_user (config_of args_seq) empty_collection_site
             (username args_seq) st_empty) = Inr (Some [])
   \<and> fst (main args_seq empty_collection_site st_empty) = 2
   \<and> fst (get_download_links_for_user (config_of args_seq) good_site (username args_seq)
             st_empty) = Inr (Some [JStr album_url, JStr album_url_b])
   \<and> fst (for_loop (config_of args_seq) good_site [JStr album_url, JStr album_url_b] st_empty) =
       Inr [Written, Written]
   \<and> fst (main args_seq good_site st_empty) = 0"
proof -
  have v: "browser args_seq \<in> set SUPPORTED_BROWSERS"
    "format args_seq \<in> set SUPPORTED_FILE_FORMATS"
    "1 \<le> parallel_downloads args_seq"
    "parallel_downloads args_seq \<le> MAX_THREADS"
    by code_simp+
  have n: "pagedata (http_get no_payload_site (Jar (browser args_seq))
             (USER_URL (username args_seq))) = NoDiv"
    "verbose args_seq = 0"
    by code_simp+
  have z: "fst (get_download_links_for_user (config_of args_seq) empty_collection_site
             (username args_seq) st_empty) = Inr (Some [])"
    by code_simp
  have g: "fst (get_download_links_for_user (config_of args_seq) good_site (username args_seq)
             st_empty) = Inr (Some [JStr album_url, JStr album_url_b])"
    by code_simp
  have l: "fst (for_loop (config_of args_seq) good_site [JStr album_url, JStr album_url_b]
             st_empty) = Inr [Written, Written]"
    by code_simp
  have ne: "[JStr album_url, JStr album_url_b] \<noteq> []"
    by simp
  from main_exit_codes [OF v, of no_payload_site st_empty] n
  have "fst (main args_seq no_payload_site st_empty) = 2"
    by blast
  moreover from main_exit_codes [OF v, of empty_collection_site st_empty] z
  have "fst (main args_seq empty_collection_site st_empty) = 2"
    by blast
  moreover from main_exit_codes [OF v, of good_site st_empty] g l ne
  have "fst (main args_seq good_site st_empty) = 0"
    by blast
  ultimately show ?thesis
    using v n z g l by (intro conjI)
qed

theorem exit_status_not_distinct_counterexample:
  "pagedata (http_get no_payload_site (Jar ''firefox'') (USER_URL ''fan'')) = NoDiv
   \<and> fst (get_download_links_for_user (config_of args_seq) no_payload_site ''fan'' st_empty) =
       Inr None
   \<and> fst (main args_seq no_payload_site st_empty) = 2
   \<and> fst (get_download_links_for_user (config_of args_seq) empty_collection_site ''fan''
             st_empty) = Inr (Some [])
   \<and> fst (main args_seq empty_collection_site st_empty) = 2"
  by code_simp









section \<open>Running twice\<close>











end
